theory Spec2Isabelle
  imports Complex_Main "HOL-Library.AList" "HOL-Library.Multiset"
begin

section \<open>JSON values\<close>

text \<open>
  The values \<^verbatim>\<open>json.loads\<close> hands to the program. A Python \<^verbatim>\<open>dict\<close> is an
  association list in insertion order; a lookup takes the binding of the key
  (\<open>map_of\<close>). A Python float is modelled by the real it denotes; NaN and the
  infinities are left out.
\<close>

datatype json =
    JNull
  | JBool bool
  | JInt int
  | JFloat real
  | JStr string
  | JList "json list"
  | JDict "(string \<times> json) list"

text \<open>\<^verbatim>\<open>d.get(key)\<close> on a dict; \<open>None\<close> is Python's \<^verbatim>\<open>None\<close> for a missing key.\<close>

definition dict_get :: "(string \<times> json) list \<Rightarrow> string \<Rightarrow> json option" where
  "dict_get d key = map_of d key"

text \<open>
  Built-ins of Python that are parameters of the model: \<^verbatim>\<open>float\<close> on a string (\<open>None\<close>
  where it raises \<^verbatim>\<open>ValueError\<close>), \<^verbatim>\<open>float\<close> on an \<^verbatim>\<open>int\<close> (the nearest double,
  \<open>None\<close> where it raises \<^verbatim>\<open>OverflowError\<close>), \<^verbatim>\<open>str\<close> on a value that is not a
  string, and the Unicode case mappings \<^verbatim>\<open>str.upper\<close> and \<^verbatim>\<open>str.lower\<close>.
\<close>

record builtins =
  float_of_str :: "string \<Rightarrow> real option"
  float_of_int :: "int \<Rightarrow> real option"
  py_str :: "json \<Rightarrow> string"
  upper :: "string \<Rightarrow> string"
  lower :: "string \<Rightarrow> string"

text \<open>
  Python's \<^verbatim>\<open>==\<close> on decoded JSON: \<^verbatim>\<open>bool\<close>, \<^verbatim>\<open>int\<close> and \<^verbatim>\<open>float\<close>
  compare by numeric value (\<^verbatim>\<open>True == 1\<close>, \<^verbatim>\<open>1 == 1.0\<close>), lists compare
  elementwise, and dicts are equal when they have the same keys and equal values under
  every key, in whatever order; everything else is equal only to its own kind.
  \<open>py_eq_items seen d e\<close> goes through the bindings of \<open>d\<close>, skips a key already seen
  (only the first binding of a key counts) and compares the value with that of \<open>e\<close>.
\<close>

fun num_val :: "json \<Rightarrow> real option" where
  "num_val (JBool b) = Some (if b then 1 else 0)"
| "num_val (JInt n) = Some (real_of_int n)"
| "num_val (JFloat r) = Some r"
| "num_val _ = None"

fun py_eq :: "json \<Rightarrow> json \<Rightarrow> bool"
  and py_eq_list :: "json list \<Rightarrow> json list \<Rightarrow> bool"
  and py_eq_items :: "string list \<Rightarrow> (string \<times> json) list \<Rightarrow> (string \<times> json) list \<Rightarrow> bool" where
  "py_eq JNull b = (b = JNull)"
| "py_eq (JBool x) b = (num_val b = Some (if x then 1 else 0))"
| "py_eq (JInt n) b = (num_val b = Some (real_of_int n))"
| "py_eq (JFloat r) b = (num_val b = Some r)"
| "py_eq (JStr s) b = (b = JStr s)"
| "py_eq (JList xs) b = (case b of JList ys \<Rightarrow> py_eq_list xs ys | _ \<Rightarrow> False)"
| "py_eq (JDict d) b =
     (case b of
        JDict e \<Rightarrow> set (map fst d) = set (map fst e) \<and> py_eq_items [] d e
      | _ \<Rightarrow> False)"
| "py_eq_list [] ys = (ys = [])"
| "py_eq_list (x # xs) ys = (case ys of [] \<Rightarrow> False | y # ys' \<Rightarrow> py_eq x y \<and> py_eq_list xs ys')"
| "py_eq_items seen [] e = True"
| "py_eq_items seen (p # d) e =
     (if fst p \<in> set seen then py_eq_items seen d e
      else (case map_of e (fst p) of
              None \<Rightarrow> False
            | Some y \<Rightarrow> py_eq (snd p) y \<and> py_eq_items (fst p # seen) d e))"

section \<open>models.py: TokenStatus\<close>

text \<open>
  The dataclass \<^verbatim>\<open>TokenStatus\<close>. \<open>fixed_list\<close> holds the \<^verbatim>\<open>sale_status\<close> values as
  they came from the API (declared \<^verbatim>\<open>List[int]\<close>; a JSON integer \<open>n\<close> is \<open>JInt n\<close>).
  \<open>timestamp\<close> is a clock reading.
\<close>

record TokenStatus =
  coin :: string
  fixed_list :: "json list"
  sort_apr :: "real option"
  timestamp :: nat

text \<open>\<^verbatim>\<open>any(s == 1 for s in self.fixed_list)\<close>\<close>

definition is_available :: "TokenStatus \<Rightarrow> bool" where
  "is_available ts = list_ex (\<lambda>s. py_eq s (JInt 1)) (fixed_list ts)"

text \<open>\<^verbatim>\<open>len(self.fixed_list) > 0 and all(s == 2 for s in self.fixed_list)\<close>\<close>

definition is_sold_out :: "TokenStatus \<Rightarrow> bool" where
  "is_sold_out ts =
     (length (fixed_list ts) > 0 \<and> list_all (\<lambda>s. py_eq s (JInt 2)) (fixed_list ts))"

definition is_partially_available :: "TokenStatus \<Rightarrow> bool" where
  "is_partially_available ts =
     (let has_available = list_ex (\<lambda>s. py_eq s (JInt 1)) (fixed_list ts);
          has_sold = list_ex (\<lambda>s. py_eq s (JInt 2)) (fixed_list ts)
      in has_available \<and> has_sold)"

text \<open>
  The four glyphs of \<^verbatim>\<open>get_status_emoji\<close>, in the order of its branches: the yellow,
  green, red and white circle.
\<close>

datatype emoji = Yellow_circle | Green_circle | Red_circle | White_circle

definition get_status_emoji :: "TokenStatus \<Rightarrow> emoji" where
  "get_status_emoji ts =
     (if is_partially_available ts then Yellow_circle
      else if is_available ts then Green_circle
      else if is_sold_out ts then Red_circle
      else White_circle)"

text \<open>
  The five phrases of \<^verbatim>\<open>get_status_text\<close>, in the order of its branches: no fixed
  products, partially available, available for purchase, sold out, and
  "status unknown (<fixed_list>)", which shows the list.
\<close>

datatype phrase =
    No_fixed_products
  | Partially_available
  | Available_for_purchase
  | Sold_out
  | Status_unknown "json list"

definition get_status_text :: "TokenStatus \<Rightarrow> phrase" where
  "get_status_text ts =
     (if fixed_list ts = [] then No_fixed_products
      else if is_partially_available ts then Partially_available
      else if is_available ts then Available_for_purchase
      else if is_sold_out ts then Sold_out
      else Status_unknown (fixed_list ts))"

text \<open>
  A message text is a sequence of fragments: literal text, a glyph, a phrase, a list
  printed by \<^verbatim>\<open>str\<close>, a float printed with the format \<^verbatim>\<open>.2f\<close>, and the
  Russian literal "status changed: " of the change notification.
\<close>

datatype fragment =
    Lit string
  | Glyph emoji
  | Phrase phrase
  | Values "json list"
  | Fixed2 real
  | Changed_label

type_synonym message_text = "fragment list"

text \<open>
  \<^verbatim>\<open>f" (APR: {self.sort_apr * 100:.2f}%)" if self.sort_apr else ""\<close>: the condition is
  Python truthiness, false for \<^verbatim>\<open>None\<close> and for \<^verbatim>\<open>0.0\<close>. The same expression builds
  the suffix in \<^verbatim>\<open>format_for_user\<close> and in the monitor's notification.
\<close>

definition apr_text :: "real option \<Rightarrow> message_text" where
  "apr_text apr =
     (case apr of
        None \<Rightarrow> []
      | Some x \<Rightarrow> if x \<noteq> 0 then [Lit '' (APR: '', Fixed2 (x * 100), Lit ''%)''] else [])"

text \<open>\<^verbatim>\<open>f"{self.coin.upper()}: {emoji} {status_text} {self.fixed_list}{apr_text}"\<close>\<close>

definition format_for_user :: "builtins \<Rightarrow> TokenStatus \<Rightarrow> message_text" where
  "format_for_user py ts =
     (let emoji = get_status_emoji ts;
          status_text = get_status_text ts
      in [Lit (upper py (coin ts)), Lit '': '', Glyph emoji, Lit '' '', Phrase status_text,
          Lit '' '', Values (fixed_list ts)] @ apr_text (sort_apr ts))"

text \<open>
  The text of the monitor's change notification (\<^verbatim>\<open>_check_once\<close>), for the watched
  \<open>coin\<close> and the freshly fetched status:
  \<^verbatim>\<open>f"{emoji} {coin.upper()}: {status_text}{apr_text}\n<status changed>: {fixed_list}"\<close>.
\<close>

definition change_text :: "builtins \<Rightarrow> string \<Rightarrow> TokenStatus \<Rightarrow> message_text" where
  "change_text py c ts =
     (let emoji = get_status_emoji ts;
          status_text = get_status_text ts
      in [Glyph emoji, Lit '' '', Lit (upper py c), Lit '': '', Phrase status_text]
         @ apr_text (sort_apr ts)
         @ [Lit [CHR 0x0A], Changed_label, Values (fixed_list ts)])"

section \<open>Python exceptions\<close>

text \<open>
  The exceptions the modelled code raises or lets through. \<open>HTTPError code\<close> is
  \<^verbatim>\<open>urllib.error.HTTPError\<close> with its status code; \<open>URLError\<close> stands for a
  \<^verbatim>\<open>urllib.error.URLError\<close> that is not an \<open>HTTPError\<close>. A raise is the \<open>Inl\<close> of a
  result \<open>exc + 'a\<close>.
\<close>

datatype exc =
    HTTPError int
  | URLError
  | TimeoutError
  | ConnectionError
  | AttributeError
  | JSONDecodeError
  | TypeError
  | ValueError
  | OverflowError
  | Other_exception string

section \<open>utils.py: retry_with_backoff\<close>

text \<open>
  \<^verbatim>\<open>time.sleep(secs)\<close>: it raises \<open>ValueError\<close> for a negative length and
  \<open>OverflowError\<close> for a length beyond what the platform's clock takes; \<open>sleep_max\<close>, the
  longest length it takes, is a parameter of the model. \<open>None\<close>: it returns.
\<close>

definition time_sleep :: "real \<Rightarrow> real \<Rightarrow> exc option" where
  "time_sleep sleep_max secs =
     (if secs < 0 then Some ValueError
      else if secs > sleep_max then Some OverflowError
      else None)"

text \<open>
  \<^verbatim>\<open>min(base_delay * (2 ** (attempt - 1)), max_delay)\<close>, for \<^verbatim>\<open>base_delay\<close> and
  \<^verbatim>\<open>max_delay\<close> floats, as they are annotated and as their defaults are: the power is
  an \<^verbatim>\<open>int\<close>, and the product with the float converts it to a float, which raises
  \<open>OverflowError\<close> from \<^verbatim>\<open>2 ** 1024\<close> on.
\<close>

definition backoff :: "real \<Rightarrow> real \<Rightarrow> int \<Rightarrow> exc + real" where
  "backoff base_delay max_delay attempt =
     (if attempt - 1 \<ge> 1024 then Inl OverflowError
      else Inr (min (base_delay * 2 ^ nat (attempt - 1)) max_delay))"

text \<open>
  The \<^verbatim>\<open>delay\<close> that the two \<^verbatim>\<open>except\<close> clauses compute for an exception of
  \<^verbatim>\<open>func()\<close>. The first clause takes an \<open>HTTPError\<close>: 60 seconds for 429, the backoff
  for a status in [500, 600), and a bare \<^verbatim>\<open>raise\<close> for any other status. The second
  takes a \<open>URLError\<close>, \<open>TimeoutError\<close> or \<open>ConnectionError\<close>. \<open>None\<close>: the exception
  leaves the function, re-raised by the first clause or caught by neither.
\<close>

fun handler_delay :: "real \<Rightarrow> real \<Rightarrow> int \<Rightarrow> exc \<Rightarrow> (exc + real) option" where
  "handler_delay base_delay max_delay attempt (HTTPError code) =
     (if code = 429 then Some (Inr 60)
      else if 500 \<le> code \<and> code < 600 then Some (backoff base_delay max_delay attempt)
      else None)"
| "handler_delay base_delay max_delay attempt URLError =
     Some (backoff base_delay max_delay attempt)"
| "handler_delay base_delay max_delay attempt TimeoutError =
     Some (backoff base_delay max_delay attempt)"
| "handler_delay base_delay max_delay attempt ConnectionError =
     Some (backoff base_delay max_delay attempt)"
| "handler_delay base_delay max_delay attempt e = None"

text \<open>
  What one run of \<^verbatim>\<open>retry_with_backoff\<close> did: the attempts at which it called
  \<^verbatim>\<open>func\<close>, the delays it slept, in order, and how it ended.
\<close>

record 'a retry_run =
  attempts :: "int list"
  sleeps :: "real list"
  outcome :: "exc + 'a"

text \<open>
  The \<^verbatim>\<open>for attempt in range(1, max_attempts + 1)\<close> loop, from \<open>attempt\<close> on.
  \<open>func k\<close> is what the call of \<^verbatim>\<open>func()\<close> in attempt \<open>k\<close> does. An exception raised
  inside an \<^verbatim>\<open>except\<close> clause, by the computation of the delay or by
  \<^verbatim>\<open>time.sleep\<close>, leaves the function. \<^verbatim>\<open>time.sleep(delay)\<close> is called only
  \<^verbatim>\<open>if attempt < max_attempts\<close>. After the loop \<^verbatim>\<open>raise last_exception\<close> raises the
  last exception caught; with none caught it is \<^verbatim>\<open>raise None\<close>, a \<open>TypeError\<close>.
\<close>

function retry_loop ::
  "real \<Rightarrow> (int \<Rightarrow> exc + 'a) \<Rightarrow> int \<Rightarrow> real \<Rightarrow> real \<Rightarrow> int \<Rightarrow> exc option \<Rightarrow> int list
     \<Rightarrow> real list \<Rightarrow> 'a retry_run" where
  "retry_loop sleep_max func max_attempts base_delay max_delay attempt last_exception called slept =
     (if attempt > max_attempts then
        \<lparr>attempts = called, sleeps = slept,
         outcome = (case last_exception of None \<Rightarrow> Inl TypeError | Some e \<Rightarrow> Inl e)\<rparr>
      else
        (case func attempt of
           Inr v \<Rightarrow> \<lparr>attempts = called @ [attempt], sleeps = slept, outcome = Inr v\<rparr>
         | Inl e \<Rightarrow>
             (case handler_delay base_delay max_delay attempt e of
                None \<Rightarrow> \<lparr>attempts = called @ [attempt], sleeps = slept, outcome = Inl e\<rparr>
              | Some (Inl x) \<Rightarrow>
                  \<lparr>attempts = called @ [attempt], sleeps = slept, outcome = Inl x\<rparr>
              | Some (Inr delay) \<Rightarrow>
                  if attempt < max_attempts then
                    (case time_sleep sleep_max delay of
                       Some x \<Rightarrow>
                         \<lparr>attempts = called @ [attempt], sleeps = slept, outcome = Inl x\<rparr>
                     | None \<Rightarrow>
                         retry_loop sleep_max func max_attempts base_delay max_delay
                           (attempt + 1) (Some e) (called @ [attempt]) (slept @ [delay]))
                  else
                    retry_loop sleep_max func max_attempts base_delay max_delay
                      (attempt + 1) (Some e) (called @ [attempt]) slept)))"
  by pat_completeness auto
termination
  by (relation "measure (\<lambda>(sleep_max, func, max_attempts, base_delay, max_delay, attempt, rest).
        nat (max_attempts + 1 - attempt))") auto

declare retry_loop.simps [simp del]

text \<open>The first argument is not one of the Python function: see \<open>time_sleep\<close>.\<close>

definition retry_with_backoff ::
  "real \<Rightarrow> (int \<Rightarrow> exc + 'a) \<Rightarrow> int \<Rightarrow> real \<Rightarrow> real \<Rightarrow> 'a retry_run" where
  "retry_with_backoff sleep_max func max_attempts base_delay max_delay =
     retry_loop sleep_max func max_attempts base_delay max_delay 1 None [] []"

subsection \<open>The retry policy in the specification's words\<close>

text \<open>
  The failures the policy retries: status 429, a status in [500, 600), and the
  network-level failures. The delay before the next attempt: the fixed cooldown of 60
  seconds after a 429, whatever the attempt, and otherwise
  \<open>min (base_delay * 2 ^ (attempt - 1)) max_delay\<close>.
\<close>

fun spec_retryable :: "exc \<Rightarrow> bool" where
  "spec_retryable (HTTPError code) = (code = 429 \<or> (500 \<le> code \<and> code < 600))"
| "spec_retryable URLError = True"
| "spec_retryable TimeoutError = True"
| "spec_retryable ConnectionError = True"
| "spec_retryable _ = False"

definition spec_delay :: "real \<Rightarrow> real \<Rightarrow> int \<Rightarrow> exc \<Rightarrow> real" where
  "spec_delay base_delay max_delay attempt e =
     (if e = HTTPError 429 then 60 else min (base_delay * 2 ^ nat (attempt - 1)) max_delay)"

text \<open>An attempt that fails with a retried failure, and the delay that follows it.\<close>

fun fails_retryably :: "exc + 'a \<Rightarrow> bool" where
  "fails_retryably (Inl e) = spec_retryable e"
| "fails_retryably (Inr v) = False"

fun delay_after :: "real \<Rightarrow> real \<Rightarrow> int \<Rightarrow> exc + 'a \<Rightarrow> real" where
  "delay_after base_delay max_delay attempt (Inl e) = spec_delay base_delay max_delay attempt e"
| "delay_after base_delay max_delay attempt (Inr v) = 0"

section \<open>parser_gate.py\<close>

subsection \<open>The response envelope\<close>

text \<open>
  \<^verbatim>\<open>for key in keys: if isinstance(d.get(key), list): return d[key]\<close>; \<open>None\<close> when
  the loop ends without returning.
\<close>

fun first_list :: "string list \<Rightarrow> (string \<times> json) list \<Rightarrow> json list option" where
  "first_list [] d = None"
| "first_list (key # keys) d =
     (case dict_get d key of
        Some (JList xs) \<Rightarrow> Some xs
      | _ \<Rightarrow> first_list keys d)"

definition extract_projects :: "(string \<times> json) list \<Rightarrow> json list" where
  "extract_projects payload =
     (case first_list [''data'', ''list'', ''result'', ''rows''] payload of
        Some xs \<Rightarrow> xs
      | None \<Rightarrow>
          (case dict_get payload ''data'' of
             Some (JDict inner) \<Rightarrow>
               (case first_list [''list'', ''rows'', ''data''] inner of
                  Some xs \<Rightarrow> xs
                | None \<Rightarrow> [])
           | _ \<Rightarrow> []))"

text \<open>
  The envelope rule in the specification's words: an ordered list of candidate
  accessors, the first of which that yields a sequence gives the result. The four members
  of the payload come first; the three members of \<open>payload.data\<close> follow when
  \<open>payload.data\<close> is a mapping.
\<close>

definition envelope_candidates :: "(string \<times> json) list \<Rightarrow> json option list" where
  "envelope_candidates payload =
     [dict_get payload ''data'', dict_get payload ''list'', dict_get payload ''result'',
      dict_get payload ''rows'']
     @ (case dict_get payload ''data'' of
          Some (JDict inner) \<Rightarrow>
            [dict_get inner ''list'', dict_get inner ''rows'', dict_get inner ''data'']
        | _ \<Rightarrow> [])"

fun is_sequence :: "json option \<Rightarrow> bool" where
  "is_sequence (Some (JList xs)) = True"
| "is_sequence _ = False"

definition first_sequence_or_empty :: "json option list \<Rightarrow> json list" where
  "first_sequence_or_empty candidates =
     (case List.find is_sequence candidates of
        Some (Some (JList xs)) \<Rightarrow> xs
      | _ \<Rightarrow> [])"

subsection \<open>The rate of return of a record\<close>

text \<open>
  Strings are sequences of code points below 256, so the non-breaking space
  \<^verbatim>\<open>"\xa0"\<close> is one character. The four \<^verbatim>\<open>replace\<close> calls of
  \<^verbatim>\<open>_parse_apr_percent\<close>, in their order.
\<close>

definition clean_apr :: "string \<Rightarrow> string" where
  "clean_apr v =
     (let cleaned = map (\<lambda>c. if c = CHR 0xA0 then CHR '' '' else c)
                      (filter (\<lambda>c. c \<noteq> CHR ''%'') v)
      in map (\<lambda>c. if c = CHR '','' then CHR ''.'' else c)
           (filter (\<lambda>c. c \<noteq> CHR '' '') cleaned))"

text \<open>
  \<^verbatim>\<open>_parse_apr_percent\<close>. The argument is the result of \<^verbatim>\<open>item.get("sort_apr")\<close>:
  a missing key and a JSON null are both Python's \<^verbatim>\<open>None\<close>. A \<^verbatim>\<open>bool\<close> is an
  \<^verbatim>\<open>int\<close> for \<^verbatim>\<open>isinstance\<close>, and \<^verbatim>\<open>float(True)\<close> is 1.0. \<^verbatim>\<open>float(value)\<close> on
  an \<^verbatim>\<open>int\<close> is outside the \<^verbatim>\<open>try\<close>: its \<open>OverflowError\<close> leaves the function.
  Inside the \<^verbatim>\<open>try\<close>, only \<open>ValueError\<close> is caught, and it is the only exception of
  \<^verbatim>\<open>float\<close> on a string.
\<close>

fun parse_apr_percent :: "builtins \<Rightarrow> json option \<Rightarrow> exc + real option" where
  "parse_apr_percent py None = Inr None"
| "parse_apr_percent py (Some JNull) = Inr None"
| "parse_apr_percent py (Some (JBool b)) = Inr (Some (if b then 1 else 0))"
| "parse_apr_percent py (Some (JInt n)) =
     (case float_of_int py n of
        None \<Rightarrow> Inl OverflowError
      | Some r \<Rightarrow> Inr (Some r))"
| "parse_apr_percent py (Some (JFloat r)) = Inr (Some r)"
| "parse_apr_percent py (Some (JStr s)) = Inr (float_of_str py (clean_apr s))"
| "parse_apr_percent py (Some (JList xs)) = Inr None"
| "parse_apr_percent py (Some (JDict d)) = Inr None"

definition sort_apr_percent :: "builtins \<Rightarrow> (string \<times> json) list \<Rightarrow> exc + real option" where
  "sort_apr_percent py item = parse_apr_percent py (dict_get item ''sort_apr'')"

subsection \<open>Sale statuses\<close>

text \<open>
  One of the two loops of \<^verbatim>\<open>extract_sale_statuses\<close>: over a member that is a list, it
  keeps \<^verbatim>\<open>entry["sale_status"]\<close> of every entry that is a dict with that key.
\<close>

definition sale_statuses_of :: "json option \<Rightarrow> json list" where
  "sale_statuses_of lst =
     (case lst of
        Some (JList entries) \<Rightarrow>
          List.map_filter
            (\<lambda>entry. case entry of JDict e \<Rightarrow> dict_get e ''sale_status'' | _ \<Rightarrow> None) entries
      | _ \<Rightarrow> [])"

text \<open>The pair is the returned dict: its \<open>fixed_list\<close> and its \<open>fixable_list\<close>.\<close>

definition extract_sale_statuses :: "(string \<times> json) list \<Rightarrow> json list \<times> json list" where
  "extract_sale_statuses item =
     (sale_statuses_of (dict_get item ''fixed_list''),
      sale_statuses_of (dict_get item ''fixable_list''))"

subsection \<open>The threshold cache\<close>

text \<open>
  \<^verbatim>\<open>CacheEntry\<close>: the cached records and the \<^verbatim>\<open>time.time()\<close> of their creation
  (the Python fields \<^verbatim>\<open>data\<close> and \<^verbatim>\<open>timestamp\<close>).
\<close>

record CacheEntry =
  entry_data :: "json list"
  entry_timestamp :: real

text \<open>\<^verbatim>\<open>time.time() - self.timestamp > ttl\<close>, with the clock reading \<open>now\<close>.\<close>

definition is_expired :: "CacheEntry \<Rightarrow> real \<Rightarrow> real \<Rightarrow> bool" where
  "is_expired entry now ttl = (now - entry_timestamp entry > ttl)"

text \<open>
  \<^verbatim>\<open>ProjectCache._cache\<close>, a dict from the threshold to its entry. In \<^verbatim>\<open>get\<close>,
  \<^verbatim>\<open>if entry and not entry.is_expired(ttl)\<close> tests an object, which is true whenever
  the key is present.
\<close>

type_synonym ProjectCache = "(real \<times> CacheEntry) list"

definition cache_get :: "ProjectCache \<Rightarrow> real \<Rightarrow> real \<Rightarrow> real \<Rightarrow> json list option" where
  "cache_get cache now threshold ttl =
     (case map_of cache threshold of
        Some entry \<Rightarrow> if \<not> is_expired entry now ttl then Some (entry_data entry) else None
      | None \<Rightarrow> None)"

definition cache_set :: "ProjectCache \<Rightarrow> real \<Rightarrow> real \<Rightarrow> json list \<Rightarrow> ProjectCache" where
  "cache_set cache now threshold d =
     AList.update threshold \<lparr>entry_data = d, entry_timestamp = now\<rparr> cache"

subsection \<open>The threshold scan\<close>

text \<open>The two constants of \<^verbatim>\<open>config.py\<close> the scan reads, and their values there.\<close>

record Config =
  TOTAL_PAGES :: int
  MAX_RETRIES :: int

definition config :: Config where
  "config = \<lparr>TOTAL_PAGES = 112, MAX_RETRIES = 3\<rparr>"

text \<open>
  What lies outside the program during one call of \<^verbatim>\<open>fetch_projects_with_apr_gt\<close>:
  the clock when the cache is read and when the result is stored; what the inner
  \<^verbatim>\<open>do_request\<close> of \<^verbatim>\<open>_fetch_page\<close> does for a page at each attempt, which is the
  decoded body or the exception raised by its pauses, by the request or by the decoding;
  the longest sleep the platform takes (see \<open>time_sleep\<close>); and when the task of each
  page finishes, which is the order in which \<^verbatim>\<open>as_completed\<close> yields them.
\<close>

record scan_world =
  now_lookup :: real
  now_store :: real
  do_request :: "int \<Rightarrow> int \<Rightarrow> exc + json"
  sleep_max :: real
  finished_at :: "int \<Rightarrow> nat"

text \<open>
  \<^verbatim>\<open>_fetch_page\<close>: \<^verbatim>\<open>retry_with_backoff(do_request, max_attempts=config.MAX_RETRIES)\<close>,
  with the defaults 2.0 and 60.0 of \<^verbatim>\<open>base_delay\<close> and \<^verbatim>\<open>max_delay\<close>.
\<close>

definition fetch_page :: "Config \<Rightarrow> scan_world \<Rightarrow> int \<Rightarrow> exc + json" where
  "fetch_page cfg w page_number =
     outcome (retry_with_backoff (sleep_max w) (do_request w page_number) (MAX_RETRIES cfg) 2 60)"

text \<open>
  The loop of \<^verbatim>\<open>_process_page\<close> over the items. \<^verbatim>\<open>item.get\<close> raises
  \<open>AttributeError\<close> on an item that is not a dict, and \<^verbatim>\<open>_sort_apr_percent\<close> may raise.
\<close>

fun matched_loop :: "builtins \<Rightarrow> real \<Rightarrow> json list \<Rightarrow> json list \<Rightarrow> exc + json list" where
  "matched_loop py threshold matched [] = Inr matched"
| "matched_loop py threshold matched (item # items) =
     (case item of
        JDict d \<Rightarrow>
          (case sort_apr_percent py d of
             Inl e \<Rightarrow> Inl e
           | Inr (Some apr_value) \<Rightarrow>
               if apr_value > threshold
               then matched_loop py threshold (matched @ [item]) items
               else matched_loop py threshold matched items
           | Inr None \<Rightarrow> matched_loop py threshold matched items)
      | _ \<Rightarrow> Inl AttributeError)"

text \<open>\<^verbatim>\<open>payload.get\<close> in \<^verbatim>\<open>_extract_projects\<close> raises on a body that is not a dict.\<close>

definition process_page ::
  "builtins \<Rightarrow> Config \<Rightarrow> scan_world \<Rightarrow> int \<Rightarrow> real \<Rightarrow> exc + json list" where
  "process_page py cfg w page_number threshold =
     (case fetch_page cfg w page_number of
        Inl e \<Rightarrow> Inl e
      | Inr payload \<Rightarrow>
          (case payload of
             JDict d \<Rightarrow> matched_loop py threshold [] (extract_projects d)
           | _ \<Rightarrow> Inl AttributeError))"

text \<open>The two log lines of the loop over the finished tasks.\<close>

datatype log_line =
    Page_ok int nat
  | Page_error int exc

text \<open>
  The loop \<^verbatim>\<open>for future in as_completed(futures)\<close>: \<open>task p\<close> is what
  \<^verbatim>\<open>future.result()\<close> gives for page \<open>p\<close>.
\<close>

fun collect ::
  "(int \<Rightarrow> exc + json list) \<Rightarrow> int list \<Rightarrow> json list \<Rightarrow> log_line list
     \<Rightarrow> json list \<times> log_line list" where
  "collect task [] results logged = (results, logged)"
| "collect task (page_number # rest) results logged =
     (case task page_number of
        Inr matched \<Rightarrow>
          collect task rest (results @ matched) (logged @ [Page_ok page_number (length matched)])
      | Inl e \<Rightarrow> collect task rest results (logged @ [Page_error page_number e]))"

text \<open>
  What a call of \<^verbatim>\<open>fetch_projects_with_apr_gt\<close> leaves: the returned list, the cache,
  the pages for which a task was submitted, and the log lines of the tasks.
\<close>

record scan_run =
  returned :: "json list"
  cache_after :: ProjectCache
  submitted :: "int list"
  logged :: "log_line list"

text \<open>
  \<^verbatim>\<open>if cached:\<close> is Python truthiness: false for \<^verbatim>\<open>None\<close> and for the empty list.
  Every exception of a task is caught by \<^verbatim>\<open>except Exception\<close>, so the call returns.
\<close>

definition fetch_projects_with_apr_gt ::
  "builtins \<Rightarrow> Config \<Rightarrow> scan_world \<Rightarrow> ProjectCache \<Rightarrow> real \<Rightarrow> bool \<Rightarrow> scan_run" where
  "fetch_projects_with_apr_gt py cfg w cache threshold force_refresh =
     (let cached = (if \<not> force_refresh then cache_get cache (now_lookup w) threshold 300
                    else None)
      in case cached of
           Some (item # items) \<Rightarrow>
             \<lparr>returned = item # items, cache_after = cache, submitted = [], logged = []\<rparr>
         | _ \<Rightarrow>
             (let page_numbers = [1..TOTAL_PAGES cfg];
                  done = collect (\<lambda>p. process_page py cfg w p threshold)
                           (sort_key (finished_at w) page_numbers) [] []
              in \<lparr>returned = fst done,
                  cache_after = cache_set cache (now_store w) threshold (fst done),
                  submitted = page_numbers,
                  logged = snd done\<rparr>))"

subsection \<open>The scan in the specification's words\<close>

text \<open>
  The rate of a record. The field may be a number, or a string with \<open>,\<close> or \<open>.\<close> as
  the decimal separator, an optional \<open>%\<close> and non-breaking spaces: parsing strips \<open>%\<close>,
  the non-breaking space and the plain space, turns \<open>,\<close> into \<open>.\<close> and reads the rest as
  a float. An absent field, a null, a string that does not read as a float and any other
  value are no value. A number is a JSON number or, as in Python, a boolean (1 or 0);
  an integer has the value of its float.
\<close>

definition spec_normalise :: "string \<Rightarrow> string" where
  "spec_normalise s =
     map (\<lambda>c. if c = CHR '','' then CHR ''.'' else c)
       (filter (\<lambda>c. c \<noteq> CHR ''%'' \<and> c \<noteq> CHR 0xA0 \<and> c \<noteq> CHR '' '') s)"

fun spec_rate :: "builtins \<Rightarrow> json \<Rightarrow> real option" where
  "spec_rate py (JDict d) =
     (case map_of d ''sort_apr'' of
        Some (JBool b) \<Rightarrow> Some (if b then 1 else 0)
      | Some (JInt n) \<Rightarrow> float_of_int py n
      | Some (JFloat r) \<Rightarrow> Some r
      | Some (JStr s) \<Rightarrow> float_of_str py (spec_normalise s)
      | _ \<Rightarrow> None)"
| "spec_rate py _ = None"

text \<open>
  A record matches when its rate is a value strictly greater than the threshold; a
  record with no value never matches, whatever the threshold.
\<close>

definition rate_above :: "builtins \<Rightarrow> real \<Rightarrow> json \<Rightarrow> bool" where
  "rate_above py threshold item =
     (case spec_rate py item of
        Some rate \<Rightarrow> rate > threshold
      | None \<Rightarrow> False)"

text \<open>
  The records of a page: those of the envelope of the body its fetch returned. The task
  of a page fails, with the exception given, when the fetch raises (after its retries),
  when the body is not a mapping, or at the first record that is not a mapping or whose
  rate is an integer too large for a float.
\<close>

definition page_records :: "Config \<Rightarrow> scan_world \<Rightarrow> int \<Rightarrow> json list" where
  "page_records cfg w p =
     (case fetch_page cfg w p of
        Inr (JDict d) \<Rightarrow> extract_projects d
      | _ \<Rightarrow> [])"

fun record_failure :: "builtins \<Rightarrow> json \<Rightarrow> exc option" where
  "record_failure py (JDict d) =
     (case map_of d ''sort_apr'' of
        Some (JInt n) \<Rightarrow> if float_of_int py n = None then Some OverflowError else None
      | _ \<Rightarrow> None)"
| "record_failure py _ = Some AttributeError"

definition page_failure :: "builtins \<Rightarrow> Config \<Rightarrow> scan_world \<Rightarrow> int \<Rightarrow> exc option" where
  "page_failure py cfg w p =
     (case fetch_page cfg w p of
        Inl e \<Rightarrow> Some e
      | Inr (JDict d) \<Rightarrow>
          (case List.map_filter (record_failure py) (extract_projects d) of
             [] \<Rightarrow> None
           | e # es \<Rightarrow> Some e)
      | Inr _ \<Rightarrow> Some AttributeError)"

text \<open>What a page gives to the result, and its log line.\<close>

definition page_matches :: "builtins \<Rightarrow> Config \<Rightarrow> scan_world \<Rightarrow> real \<Rightarrow> int \<Rightarrow> json list" where
  "page_matches py cfg w threshold p =
     (if page_failure py cfg w p = None
      then filter (rate_above py threshold) (page_records cfg w p)
      else [])"

definition page_log :: "builtins \<Rightarrow> Config \<Rightarrow> scan_world \<Rightarrow> real \<Rightarrow> int \<Rightarrow> log_line" where
  "page_log py cfg w threshold p =
     (case page_failure py cfg w p of
        None \<Rightarrow> Page_ok p (length (filter (rate_above py threshold) (page_records cfg w p)))
      | Some e \<Rightarrow> Page_error p e)"

section \<open>models.py: building and serialising a TokenStatus\<close>

text \<open>\<^verbatim>\<open>str(item.get('asset', ''))\<close>\<close>

definition asset_str :: "builtins \<Rightarrow> (string \<times> json) list \<Rightarrow> string" where
  "asset_str py item =
     (case dict_get item ''asset'' of
        None \<Rightarrow> ''''
      | Some (JStr s) \<Rightarrow> s
      | Some v \<Rightarrow> py_str py v)"

text \<open>
  \<^verbatim>\<open>from_api_response\<close>; \<open>now\<close> is the reading of \<^verbatim>\<open>datetime.now()\<close>.
  \<^verbatim>\<open>_sort_apr_percent\<close> may raise, and then no status is built.
  \<^verbatim>\<open>__post_init__\<close> lowers the coin (again).
\<close>

definition from_api_response ::
  "builtins \<Rightarrow> (string \<times> json) list \<Rightarrow> nat \<Rightarrow> exc + TokenStatus" where
  "from_api_response py item now =
     (let c = lower py (asset_str py item);
          statuses = extract_sale_statuses item
      in case sort_apr_percent py item of
           Inl e \<Rightarrow> Inl e
         | Inr apr \<Rightarrow>
             Inr \<lparr>coin = lower py c, fixed_list = fst statuses, sort_apr = apr,
                  timestamp = now\<rparr>)"

text \<open>
  The status texts kept in the registry and in the database. \<^verbatim>\<open>to_string\<close> writes the
  JSON text of a dict with the members \<open>fixed_list\<close>, \<open>sort_apr\<close> and \<open>timestamp\<close> (an ISO
  time or null); \<^verbatim>\<open>json.dumps\<close> is deterministic and \<^verbatim>\<open>json.loads\<close> inverts it,
  so such a text is modelled by its three members, \<open>Status_text\<close>: two of them are the
  same string exactly when their members are the same. \<open>Plain_text s\<close> is a string \<open>s\<close>
  that is not a JSON document, such as the \<^verbatim>\<open>"no_data"\<close> that \<^verbatim>\<open>_handle_text\<close>
  stores for a coin it could not fetch.
\<close>

datatype status_str =
    Status_text "json list" "real option" "nat option"
  | Plain_text string

definition to_string :: "TokenStatus \<Rightarrow> status_str" where
  "to_string ts = Status_text (fixed_list ts) (sort_apr ts) (Some (timestamp ts))"

text \<open>
  \<^verbatim>\<open>from_string\<close>: \<^verbatim>\<open>json.loads\<close> raises \<open>JSONDecodeError\<close> on a text that is not
  JSON; a missing timestamp becomes \<^verbatim>\<open>datetime.now()\<close>.
\<close>

fun from_string :: "builtins \<Rightarrow> string \<Rightarrow> status_str \<Rightarrow> nat \<Rightarrow> exc + TokenStatus" where
  "from_string py c (Plain_text s) now = Inl JSONDecodeError"
| "from_string py c (Status_text fl apr t) now =
     Inr \<lparr>coin = lower py c, fixed_list = fl, sort_apr = apr,
          timestamp = (case t of Some t' \<Rightarrow> t' | None \<Rightarrow> now)\<rparr>"

section \<open>database.py\<close>

text \<open>
  The two tables the registry uses: \<open>subscribers\<close> maps a chat to its \<open>paused\<close> flag,
  \<open>watches\<close> maps a (chat, coin) pair, which is unique, to \<open>current_status\<close>. The time
  columns are left out.
\<close>

record Database =
  subscribers_table :: "(string \<times> bool) list"
  watches_table :: "((string \<times> string) \<times> status_str) list"

text \<open>\<^verbatim>\<open>INSERT INTO subscribers\<close>; an existing chat gives \<open>IntegrityError\<close> and \<open>False\<close>.\<close>

definition db_add_subscriber :: "Database \<Rightarrow> string \<Rightarrow> bool \<times> Database" where
  "db_add_subscriber d chat_id =
     (if chat_id \<in> fst ` set (subscribers_table d) then (False, d)
      else (True, d\<lparr>subscribers_table := subscribers_table d @ [(chat_id, False)]\<rparr>))"

definition db_get_all_subscribers :: "Database \<Rightarrow> string set" where
  "db_get_all_subscribers d = fst ` set (subscribers_table d)"

definition db_is_paused :: "Database \<Rightarrow> string \<Rightarrow> bool" where
  "db_is_paused d chat_id =
     (case map_of (subscribers_table d) chat_id of Some paused \<Rightarrow> paused | None \<Rightarrow> False)"

text \<open>\<^verbatim>\<open>INSERT ... ON CONFLICT(chat_id, coin) DO UPDATE\<close>\<close>

definition db_add_watch :: "Database \<Rightarrow> string \<Rightarrow> string \<Rightarrow> status_str \<Rightarrow> Database" where
  "db_add_watch d chat_id c status =
     d\<lparr>watches_table := AList.update (chat_id, c) status (watches_table d)\<rparr>"

text \<open>\<^verbatim>\<open>UPDATE watches SET current_status = ? WHERE chat_id = ? AND coin = ?\<close>\<close>

definition db_update_watch_status :: "Database \<Rightarrow> string \<Rightarrow> string \<Rightarrow> status_str \<Rightarrow> Database" where
  "db_update_watch_status d chat_id c status =
     d\<lparr>watches_table := AList.map_entry (chat_id, c) (\<lambda>old. status) (watches_table d)\<rparr>"

text \<open>\<^verbatim>\<open>DELETE FROM watches WHERE chat_id = ? AND coin = ?\<close>, and \<^verbatim>\<open>rowcount > 0\<close>.\<close>

definition db_remove_watch :: "Database \<Rightarrow> string \<Rightarrow> string \<Rightarrow> bool \<times> Database" where
  "db_remove_watch d chat_id c =
     ((chat_id, c) \<in> fst ` set (watches_table d),
      d\<lparr>watches_table := AList.delete (chat_id, c) (watches_table d)\<rparr>)"

definition db_get_all_watches :: "Database \<Rightarrow> (string \<times> string \<times> status_str) list" where
  "db_get_all_watches d = map (\<lambda>((chat_id, c), status). (chat_id, c, status)) (watches_table d)"

section \<open>telegram_bot.py: BotState\<close>

text \<open>
  The registry. The Python set \<open>subscribers\<close> is a list without repetitions, in the order
  in which \<^verbatim>\<open>list(state.subscribers)\<close> yields it; the dict \<open>watch\<close> of dicts is an
  association list of association lists, in insertion order.
\<close>

record BotState =
  db :: Database
  global_failures :: int
  global_alerted :: bool
  coin_failures :: "(string \<times> int) list"
  coin_alerted :: "string list"
  subscribers :: "string list"
  watch :: "(string \<times> (string \<times> status_str) list) list"

text \<open>\<^verbatim>\<open>self.watch.get(chat_id, {})\<close>\<close>

definition coins_of :: "BotState \<Rightarrow> string \<Rightarrow> (string \<times> status_str) list" where
  "coins_of st chat_id = (case map_of (watch st) chat_id of Some coins \<Rightarrow> coins | None \<Rightarrow> [])"

text \<open>\<^verbatim>\<open>self.watch.setdefault(chat_id, {})[coin] = status\<close>\<close>

definition watch_put ::
  "BotState \<Rightarrow> string \<Rightarrow> string \<Rightarrow> status_str \<Rightarrow> (string \<times> (string \<times> status_str) list) list" where
  "watch_put st chat_id c status =
     AList.update chat_id (AList.update c status (coins_of st chat_id)) (watch st)"

definition add_subscriber :: "BotState \<Rightarrow> string \<Rightarrow> BotState" where
  "add_subscriber st chat_id =
     (let (was_new, d) = db_add_subscriber (db st) chat_id
      in st\<lparr>db := d,
            subscribers := List.insert chat_id (subscribers st),
            watch := (if chat_id \<in> fst ` set (watch st) then watch st
                      else watch st @ [(chat_id, [])])\<rparr>)"

definition set_watch :: "BotState \<Rightarrow> string \<Rightarrow> string \<Rightarrow> status_str \<Rightarrow> BotState" where
  "set_watch st chat_id c status =
     st\<lparr>db := db_add_watch (db st) chat_id c status,
        watch := watch_put st chat_id c status\<rparr>"

definition get_watches :: "BotState \<Rightarrow> (string \<times> string \<times> status_str) list" where
  "get_watches st =
     concat (map (\<lambda>(chat_id, coins). map (\<lambda>(c, status). (chat_id, c, status)) coins) (watch st))"

text \<open>
  \<^verbatim>\<open>coins = self.watch.get(chat_id, {}); if coin in coins: del coins[coin]\<close>: the dict of
  a chat that has one is changed in place.
\<close>

definition remove_watch :: "BotState \<Rightarrow> string \<Rightarrow> string \<Rightarrow> bool \<times> BotState" where
  "remove_watch st chat_id c =
     (let (removed, d) = db_remove_watch (db st) chat_id c
      in (removed,
          st\<lparr>db := d,
             watch := (case map_of (watch st) chat_id of
                         Some coins \<Rightarrow> AList.update chat_id (AList.delete c coins) (watch st)
                       | None \<Rightarrow> watch st)\<rparr>))"

definition clear_watches :: "BotState \<Rightarrow> string \<Rightarrow> BotState" where
  "clear_watches st chat_id =
     st\<lparr>db := fold (\<lambda>c d. snd (db_remove_watch d chat_id c)) (map fst (coins_of st chat_id)) (db st),
        watch := AList.update chat_id [] (watch st)\<rparr>"

text \<open>
  \<^verbatim>\<open>update_status\<close>: the result says whether it wrote. \<open>current\<close> is
  \<^verbatim>\<open>self.watch.get(chat_id, {}).get(coin)\<close>, \<open>None\<close> when there is no such watch.
\<close>

definition update_status :: "BotState \<Rightarrow> string \<Rightarrow> string \<Rightarrow> status_str \<Rightarrow> bool \<times> BotState" where
  "update_status st chat_id c new_status =
     (let current = map_of (coins_of st chat_id) c
      in if current \<noteq> Some new_status then
           (True, st\<lparr>db := db_update_watch_status (db st) chat_id c new_status,
                     watch := watch_put st chat_id c new_status\<rparr>)
         else (False, st))"

text \<open>
  The registry mirrors the store: the subscribers are those of the \<open>subscribers\<close> table,
  and every chat and coin have in the \<open>watch\<close> map the status they have in the
  \<open>watches\<close> table, or none in both.
\<close>

definition mirrors :: "BotState \<Rightarrow> bool" where
  "mirrors st =
     (set (subscribers st) = db_get_all_subscribers (db st) \<and>
      (\<forall>chat_id c. map_of (coins_of st chat_id) c = map_of (watches_table (db st)) (chat_id, c)))"

section \<open>telegram_bot.py: the monitor\<close>

text \<open>
  What the monitor sends. \<^verbatim>\<open>_send_alert(text)\<close> sends \<^verbatim>\<open>"[ALERT] " + text\<close>; the three
  texts are the fetch error with its exception, the empty answer for a coin (in upper
  case), and the recovery notice. \<open>Change\<close> is the notification of a changed status.
\<close>

datatype alert = Fetch_failed exc | Empty_answer string | Restored

datatype notice = Alert alert | Change message_text

text \<open>
  What lies outside the program during one pass: what \<^verbatim>\<open>fetch_token_info(coin)\<close> does
  when the watch of a chat for a coin is polled (it raises, or returns \<^verbatim>\<open>None\<close> or a
  dict), and the reading of \<^verbatim>\<open>datetime.now()\<close> at that poll.
\<close>

record pass_world =
  fetch_token_info :: "string \<Rightarrow> string \<Rightarrow> exc + (string \<times> json) list option"
  clock :: "string \<Rightarrow> string \<Rightarrow> nat"

text \<open>
  The monitor while it runs: the registry, the local \<^verbatim>\<open>any_success\<close> of the pass, the
  messages handed to \<^verbatim>\<open>send_message\<close> so far (which never raises) and the status writes
  made so far, a write being a call of \<^verbatim>\<open>update_status\<close> that returned \<^verbatim>\<open>True\<close>.
\<close>

record monitor =
  state :: BotState
  any_success :: bool
  sent :: "(string \<times> notice) list"
  written :: "(string \<times> string \<times> status_str) list"

text \<open>\<^verbatim>\<open>_send_alert\<close>: one message to every subscriber.\<close>

definition send_alert :: "alert \<Rightarrow> monitor \<Rightarrow> monitor" where
  "send_alert a m = m\<lparr>sent := sent m @ map (\<lambda>t. (t, Alert a)) (subscribers (state m))\<rparr>"

text \<open>
  \<^verbatim>\<open>if not state.global_alerted: _send_alert(...); state.global_alerted = True\<close>, the
  treatment of a poll that raised and of a poll that returned nothing.
\<close>

definition alert_once :: "alert \<Rightarrow> monitor \<Rightarrow> monitor" where
  "alert_once a m =
     (if \<not> global_alerted (state m) then
        (let m' = send_alert a m in m'\<lparr>state := (state m')\<lparr>global_alerted := True\<rparr>\<rparr>)
      else m)"

text \<open>Python truthiness of \<^verbatim>\<open>old_status_str\<close>: false for \<^verbatim>\<open>None\<close> and the empty string.\<close>

fun truthy :: "status_str option \<Rightarrow> bool" where
  "truthy None = False"
| "truthy (Some (Plain_text s)) = (s \<noteq> [])"
| "truthy (Some (Status_text fl apr t)) = True"

text \<open>
  \<^verbatim>\<open>status_changed\<close>: whether the fixed_list differs from the one of the stored status;
  \<open>True\<close> when there is none. \<^verbatim>\<open>from_string\<close> may raise.
\<close>

definition status_changed ::
  "builtins \<Rightarrow> string \<Rightarrow> status_str option \<Rightarrow> TokenStatus \<Rightarrow> nat \<Rightarrow> exc + bool" where
  "status_changed py c old_status_str token_status now =
     (if truthy old_status_str then
        (case from_string py c (the old_status_str) now of
           Inl e \<Rightarrow> Inl e
         | Inr old_status \<Rightarrow>
             Inr (\<not> py_eq_list (fixed_list old_status) (fixed_list token_status)))
      else Inr True)"

text \<open>
  The body of the loop of \<^verbatim>\<open>_check_once\<close> for one entry of \<^verbatim>\<open>state.get_watches()\<close>.
  \<open>Inl\<close> is an exception that nothing in \<^verbatim>\<open>_check_once\<close> catches: one of
  \<^verbatim>\<open>from_api_response\<close> or of \<^verbatim>\<open>from_string\<close>. \<^verbatim>\<open>if not info\<close> holds for
  \<^verbatim>\<open>None\<close> and for an empty dict.
\<close>

definition check_watch ::
  "builtins \<Rightarrow> pass_world \<Rightarrow> string \<times> string \<times> status_str \<Rightarrow> monitor \<Rightarrow> exc + monitor" where
  "check_watch py w entry m =
     (case entry of (chat_id, c, last_status) \<Rightarrow>
        if db_is_paused (db (state m)) chat_id then Inr m
        else
          (case fetch_token_info w chat_id c of
             Inl e \<Rightarrow> Inr (alert_once (Fetch_failed e) m)
           | Inr None \<Rightarrow> Inr (alert_once (Empty_answer (upper py c)) m)
           | Inr (Some []) \<Rightarrow> Inr (alert_once (Empty_answer (upper py c)) m)
           | Inr (Some info) \<Rightarrow>
               (case from_api_response py info (clock w chat_id c) of
                  Inl e \<Rightarrow> Inl e
                | Inr token_status \<Rightarrow>
                    (let current_status = to_string token_status;
                         old_status_str = map_of (coins_of (state m) chat_id) c
                     in case status_changed py c old_status_str token_status
                               (clock w chat_id c) of
                          Inl e \<Rightarrow> Inl e
                        | Inr changed \<Rightarrow>
                            (let (wrote, st) = update_status (state m) chat_id c current_status;
                                 m1 = m\<lparr>state := st, any_success := True,
                                        written := written m
                                          @ (if wrote then [(chat_id, c, current_status)]
                                             else [])\<rparr>
                             in if wrote \<and> changed
                                then Inr (m1\<lparr>sent := sent m1
                                     @ [(chat_id, Change (change_text py c token_status))]\<rparr>)
                                else Inr m1)))))"

text \<open>The loop over the entries; an exception ends it and leaves what was done so far.\<close>

fun check_watches ::
  "builtins \<Rightarrow> pass_world \<Rightarrow> (string \<times> string \<times> status_str) list \<Rightarrow> monitor \<Rightarrow> exc option \<times> monitor" where
  "check_watches py w [] m = (None, m)"
| "check_watches py w (entry # entries) m =
     (case check_watch py w entry m of
        Inl e \<Rightarrow> (Some e, m)
      | Inr m' \<Rightarrow> check_watches py w entries m')"

text \<open>The end of \<^verbatim>\<open>_check_once\<close>: the recovery notice and the reset.\<close>

definition recover :: "monitor \<Rightarrow> monitor" where
  "recover m =
     (if any_success m \<and> global_alerted (state m) then
        (let m' = send_alert Restored m
         in m'\<lparr>state := (state m')\<lparr>global_alerted := False, global_failures := 0,
                                   coin_failures := [], coin_alerted := []\<rparr>\<rparr>)
      else m)"

text \<open>
  One pass. The result is the exception that ended it, if any, and the monitor as the
  pass left it; \<open>sent\<close> and \<open>written\<close> go on from those of \<open>m\<close>.
\<close>

definition check_once :: "builtins \<Rightarrow> pass_world \<Rightarrow> monitor \<Rightarrow> exc option \<times> monitor" where
  "check_once py w m =
     (case check_watches py w (get_watches (state m)) (m\<lparr>any_success := False\<rparr>) of
        (Some e, m') \<Rightarrow> (Some e, m')
      | (None, m') \<Rightarrow> (None, recover m'))"

text \<open>
  \<^verbatim>\<open>_monitor_loop\<close>, for as many passes as there are worlds in the list: an exception
  of \<^verbatim>\<open>_check_once\<close> ends the loop and its thread.
\<close>

fun monitor_loop :: "builtins \<Rightarrow> pass_world list \<Rightarrow> monitor \<Rightarrow> exc option \<times> monitor" where
  "monitor_loop py [] m = (None, m)"
| "monitor_loop py (w # ws) m =
     (case check_once py w m of
        (Some e, m') \<Rightarrow> (Some e, m')
      | (None, m') \<Rightarrow> monitor_loop py ws m')"

text \<open>The monitor at the start, around a registry.\<close>

definition start :: "BotState \<Rightarrow> monitor" where
  "start st = \<lparr>state = st, any_success = False, sent = [], written = []\<rparr>"

subsection \<open>The outcomes of a poll in the specification's words\<close>

text \<open>
  A poll fails when the fetch raises or returns nothing; the alert that a failed poll
  of a coin asks for; and the polls a pass makes: those of the entries whose chat is
  not paused.
\<close>

fun fetch_failed :: "exc + (string \<times> json) list option \<Rightarrow> bool" where
  "fetch_failed (Inl e) = True"
| "fetch_failed (Inr None) = True"
| "fetch_failed (Inr (Some [])) = True"
| "fetch_failed (Inr (Some (x # xs))) = False"

fun failure_alert :: "builtins \<Rightarrow> string \<Rightarrow> exc + (string \<times> json) list option \<Rightarrow> alert" where
  "failure_alert py c (Inl e) = Fetch_failed e"
| "failure_alert py c (Inr r) = Empty_answer (upper py c)"

definition polled :: "BotState \<Rightarrow> string \<times> string \<times> status_str \<Rightarrow> bool" where
  "polled st entry = (\<not> db_is_paused (db st) (fst entry))"

definition poll_fails :: "pass_world \<Rightarrow> string \<times> string \<times> status_str \<Rightarrow> bool" where
  "poll_fails w entry = fetch_failed (fetch_token_info w (fst entry) (fst (snd entry)))"

definition poll_alert :: "builtins \<Rightarrow> pass_world \<Rightarrow> string \<times> string \<times> status_str \<Rightarrow> alert" where
  "poll_alert py w entry =
     failure_alert py (fst (snd entry)) (fetch_token_info w (fst entry) (fst (snd entry)))"

text \<open>The alerts among the messages sent, and the message of an alert to every subscriber.\<close>

fun is_alert :: "string \<times> notice \<Rightarrow> bool" where
  "is_alert (t, Alert a) = True"
| "is_alert (t, Change txt) = False"

definition broadcast :: "BotState \<Rightarrow> alert \<Rightarrow> (string \<times> notice) list" where
  "broadcast st a = map (\<lambda>t. (t, Alert a)) (subscribers st)"

section \<open>Properties of the status classification and its display\<close>

lemma py_eq_JInt [simp]: "py_eq (JInt a) (JInt b) \<longleftrightarrow> a = b"
  by auto

lemma list_ex_JInt [simp]: "list_ex (\<lambda>s. py_eq s (JInt k)) (map JInt xs) \<longleftrightarrow> k \<in> set xs"
  by (induction xs) auto

lemma list_all_JInt [simp]:
  "list_all (\<lambda>s. py_eq s (JInt k)) (map JInt xs) \<longleftrightarrow> set xs \<subseteq> {k}"
  by (induction xs) auto

lemma is_available_ints:
  "fixed_list ts = map JInt xs \<Longrightarrow> is_available ts \<longleftrightarrow> 1 \<in> set xs"
  by (simp add: is_available_def)

lemma is_sold_out_ints:
  "fixed_list ts = map JInt xs \<Longrightarrow> is_sold_out ts \<longleftrightarrow> xs \<noteq> [] \<and> set xs \<subseteq> {2}"
  by (simp add: is_sold_out_def)

lemma is_partially_available_ints:
  "fixed_list ts = map JInt xs \<Longrightarrow> is_partially_available ts \<longleftrightarrow> 1 \<in> set xs \<and> 2 \<in> set xs"
  by (simp add: is_partially_available_def)

text \<open>
  C10. The classification is defined for every list of integers, whatever its entries,
  and picks its glyph in the order partial, available, sold out, unknown. A non-empty
  list with no entry 1 and some entry other than 2, such as [3], gets the white glyph
  and the phrase "status unknown", although it is not empty.
\<close>

theorem classification_total_with_priority:
  fixes xs :: "int list"
  assumes "fixed_list ts = map JInt xs"
  shows "get_status_emoji ts =
           (if 1 \<in> set xs \<and> 2 \<in> set xs then Yellow_circle
            else if 1 \<in> set xs then Green_circle
            else if xs \<noteq> [] \<and> set xs \<subseteq> {2} then Red_circle
            else White_circle) \<and>
         (xs \<noteq> [] \<and> 1 \<notin> set xs \<and> \<not> set xs \<subseteq> {2} \<longrightarrow>
           get_status_emoji ts = White_circle \<and>
           get_status_text ts = Status_unknown (map JInt xs))"
  using assms
  by (auto simp: get_status_emoji_def get_status_text_def is_available_ints
      is_sold_out_ints is_partially_available_ints)

theorem classification_total_with_priority_witness:
  "get_status_emoji \<lparr>coin = ''algo'', fixed_list = [JInt 3], sort_apr = None, timestamp = 0\<rparr>
     = White_circle \<and>
   get_status_text \<lparr>coin = ''algo'', fixed_list = [JInt 3], sort_apr = None, timestamp = 0\<rparr>
     = Status_unknown [JInt 3]"
  using classification_total_with_priority
    [of "\<lparr>coin = ''algo'', fixed_list = [JInt 3], sort_apr = None, timestamp = 0\<rparr>" "[3]"]
  by simp

text \<open>
  C9. A status whose rate is 0.0 is displayed exactly as one with no rate: neither
  \<open>format_for_user\<close> nor the monitor's change notification has an APR suffix. A nonzero
  rate \<open>x\<close> is displayed as \<open>x * 100\<close> with two decimals and a percent sign.
\<close>

theorem zero_apr_is_omitted:
  "format_for_user py (ts\<lparr>sort_apr := Some 0\<rparr>) = format_for_user py (ts\<lparr>sort_apr := None\<rparr>) \<and>
   change_text py c (ts\<lparr>sort_apr := Some 0\<rparr>) = change_text py c (ts\<lparr>sort_apr := None\<rparr>) \<and>
   apr_text (Some 0) = [] \<and>
   (x \<noteq> 0 \<longrightarrow>
      apr_text (Some x) = [Lit '' (APR: '', Fixed2 (x * 100), Lit ''%)''] \<and>
      format_for_user py (ts\<lparr>sort_apr := Some x\<rparr>)
        = format_for_user py (ts\<lparr>sort_apr := None\<rparr>) @ apr_text (Some x) \<and>
      change_text py c (ts\<lparr>sort_apr := Some x\<rparr>)
        = [Glyph (get_status_emoji ts), Lit '' '', Lit (upper py c), Lit '': '',
           Phrase (get_status_text ts)]
          @ apr_text (Some x)
          @ [Lit [CHR 0x0A], Changed_label, Values (fixed_list ts)])"
  by (simp add: format_for_user_def change_text_def apr_text_def get_status_emoji_def
      get_status_text_def is_available_def is_sold_out_def is_partially_available_def)

theorem zero_apr_is_omitted_witness:
  "(let py = \<lparr>float_of_str = (\<lambda>s. None), float_of_int = (\<lambda>n. Some (real_of_int n)),
              py_str = (\<lambda>v. []), upper = (\<lambda>s. if s = ''algo'' then ''ALGO'' else s),
              lower = (\<lambda>s. if s = ''ALGO'' then ''algo'' else s)\<rparr>
    in apr_text (Some (25 / 1000)) = [Lit '' (APR: '', Fixed2 (5 / 2), Lit ''%)''] \<and>
       format_for_user py \<lparr>coin = ''algo'', fixed_list = [JInt 1], sort_apr = Some (25 / 1000),
                           timestamp = 0\<rparr>
         = [Lit ''ALGO'', Lit '': '', Glyph Green_circle, Lit '' '',
            Phrase Available_for_purchase, Lit '' '', Values [JInt 1], Lit '' (APR: '',
            Fixed2 (5 / 2), Lit ''%)''])"
proof -
  define py where "py = \<lparr>float_of_str = (\<lambda>s :: string. None :: real option),
              float_of_int = (\<lambda>n. Some (real_of_int n)),
              py_str = (\<lambda>v :: json. [] :: string),
              upper = (\<lambda>s. if s = ''algo'' then ''ALGO'' else s),
              lower = (\<lambda>s. if s = ''ALGO'' then ''algo'' else s)\<rparr>"
  have base: "format_for_user py \<lparr>coin = ''algo'', fixed_list = [JInt 1], sort_apr = None,
                               timestamp = 0\<rparr>
      = [Lit ''ALGO'', Lit '': '', Glyph Green_circle, Lit '' '', Phrase Available_for_purchase,
         Lit '' '', Values [JInt 1]]"
    by (simp add: format_for_user_def apr_text_def get_status_emoji_def get_status_text_def
        is_available_def is_sold_out_def is_partially_available_def py_def)
  have "apr_text (Some (25 / 1000)) = [Lit '' (APR: '', Fixed2 (5 / 2), Lit ''%)''] \<and>
       format_for_user py \<lparr>coin = ''algo'', fixed_list = [JInt 1], sort_apr = Some (25 / 1000),
                           timestamp = 0\<rparr>
         = [Lit ''ALGO'', Lit '': '', Glyph Green_circle, Lit '' '',
            Phrase Available_for_purchase, Lit '' '', Values [JInt 1], Lit '' (APR: '',
            Fixed2 (5 / 2), Lit ''%)'']"
    using zero_apr_is_omitted
      [of py "\<lparr>coin = ''algo'', fixed_list = [JInt 1], sort_apr = None, timestamp = 0\<rparr>"
          "''algo''" "25 / 1000"]
    by (simp add: base)
  then show ?thesis
    unfolding Let_def py_def .
qed

section \<open>Properties of the envelope extraction\<close>

lemma is_sequence_iff: "is_sequence v \<longleftrightarrow> (\<exists>xs. v = Some (JList xs))"
  by (cases v rule: is_sequence.cases) auto

lemma first_list_find:
  "first_list keys d =
     (case List.find is_sequence (map (dict_get d) keys) of
        Some (Some (JList xs)) \<Rightarrow> Some xs | _ \<Rightarrow> None)"
proof (induction keys)
  case Nil
  then show ?case by simp
next
  case (Cons key keys)
  show ?case
  proof (cases "is_sequence (dict_get d key)")
    case True
    then obtain xs where "dict_get d key = Some (JList xs)"
      by (auto simp: is_sequence_iff)
    then show ?thesis by simp
  next
    case False
    then have "first_list (key # keys) d = first_list keys d"
      by (auto simp: is_sequence_iff split: option.splits json.splits)
    with False Cons show ?thesis by simp
  qed
qed

lemma find_append:
  "List.find P (xs @ ys) = (case List.find P xs of Some x \<Rightarrow> Some x | None \<Rightarrow> List.find P ys)"
  by (induction xs) auto

text \<open>
  C8. For every payload mapping, \<open>extract_projects\<close> returns the first sequence among
  \<open>payload.data\<close>, \<open>payload.list\<close>, \<open>payload.result\<close>, \<open>payload.rows\<close> and then, when
  \<open>payload.data\<close> is a mapping, its members \<open>list\<close>, \<open>rows\<close>, \<open>data\<close>; with no sequence
  among them it returns the empty sequence.
\<close>

theorem extract_projects_first_sequence:
  "extract_projects payload = first_sequence_or_empty (envelope_candidates payload)"
proof -
  let ?outer = "map (dict_get payload) [''data'', ''list'', ''result'', ''rows'']"
  have outer: "envelope_candidates payload =
      ?outer @ (case dict_get payload ''data'' of
          Some (JDict inner) \<Rightarrow> map (dict_get inner) [''list'', ''rows'', ''data'']
        | _ \<Rightarrow> [])"
    by (simp add: envelope_candidates_def split: option.splits json.splits)
  show ?thesis
  proof (cases "List.find is_sequence ?outer")
    case (Some v)
    then have "is_sequence v"
      by (auto simp only: find_Some_iff)
    then obtain xs where v: "v = Some (JList xs)"
      by (auto simp: is_sequence_iff)
    have "first_list [''data'', ''list'', ''result'', ''rows''] payload = Some xs"
      using Some v by (simp only: first_list_find) simp
    moreover have "List.find is_sequence (envelope_candidates payload) = Some (Some (JList xs))"
      using Some v by (simp only: outer find_append) simp
    ultimately show ?thesis
      by (simp add: extract_projects_def first_sequence_or_empty_def)
  next
    case None
    have fl: "first_list [''data'', ''list'', ''result'', ''rows''] payload = None"
      using None by (simp only: first_list_find) simp
    show ?thesis
    proof (cases "dict_get payload ''data''")
      case no: None
      then show ?thesis using None fl
        by (simp add: extract_projects_def first_sequence_or_empty_def outer find_append
            del: first_list.simps list.map)
    next
      case (Some w)
      show ?thesis
      proof (cases w)
        case (JDict inner)
        have "List.find is_sequence (envelope_candidates payload)
                = List.find is_sequence (map (dict_get inner) [''list'', ''rows'', ''data''])"
          using None Some JDict by (simp only: outer find_append) simp
        then show ?thesis
          using fl Some JDict
          by (simp add: extract_projects_def first_sequence_or_empty_def first_list_find
              del: first_list.simps list.map split: option.splits json.splits)
      qed (use None fl Some in \<open>simp_all add: extract_projects_def first_sequence_or_empty_def
            outer find_append del: first_list.simps list.map\<close>)
    qed
  qed
qed

theorem extract_projects_first_sequence_witness:
  "extract_projects
     [(''code'', JInt 0),
      (''data'', JDict [(''total'', JInt 2), (''list'', JList [JStr ''a'', JStr ''b''])]),
      (''rows'', JNull)]
   = [JStr ''a'', JStr ''b''] \<and>
   extract_projects [(''data'', JStr ''none''), (''result'', JList [JInt 7])] = [JInt 7] \<and>
   extract_projects [(''data'', JDict [(''items'', JList [JInt 7])])] = []"
proof -
  have "first_sequence_or_empty (envelope_candidates
     [(''code'', JInt 0),
      (''data'', JDict [(''total'', JInt 2), (''list'', JList [JStr ''a'', JStr ''b''])]),
      (''rows'', JNull)]) = [JStr ''a'', JStr ''b'']"
    by (simp add: first_sequence_or_empty_def envelope_candidates_def dict_get_def)
  moreover have "first_sequence_or_empty (envelope_candidates
     [(''data'', JStr ''none''), (''result'', JList [JInt 7])]) = [JInt 7]"
    by (simp add: first_sequence_or_empty_def envelope_candidates_def dict_get_def)
  moreover have "first_sequence_or_empty (envelope_candidates
     [(''data'', JDict [(''items'', JList [JInt 7])])]) = []"
    by (simp add: first_sequence_or_empty_def envelope_candidates_def dict_get_def)
  ultimately show ?thesis
    by (simp only: extract_projects_first_sequence)
qed

section \<open>Properties of the retry policy\<close>

lemma retry_loop_exhausted:
  "m < a \<Longrightarrow> retry_loop sm func m b d a lst called slept =
     \<lparr>attempts = called, sleeps = slept,
      outcome = (case lst of None \<Rightarrow> Inl TypeError | Some e \<Rightarrow> Inl e)\<rparr>"
  by (subst retry_loop.simps) simp

lemma retry_loop_returns:
  "a \<le> m \<Longrightarrow> func a = Inr v \<Longrightarrow> retry_loop sm func m b d a lst called slept =
     \<lparr>attempts = called @ [a], sleeps = slept, outcome = Inr v\<rparr>"
  by (subst retry_loop.simps) simp

lemma handler_delay_fatal: "\<not> spec_retryable e \<Longrightarrow> handler_delay b d a e = None"
  by (cases e) auto

lemma handler_delay_retried:
  "spec_retryable e \<Longrightarrow> a \<le> 1024 \<or> e = HTTPError 429 \<Longrightarrow>
   handler_delay b d a e = Some (Inr (spec_delay b d a e))"
  by (cases e) (auto simp: spec_delay_def backoff_def)

lemma handler_delay_overflow:
  "spec_retryable e \<Longrightarrow> e \<noteq> HTTPError 429 \<Longrightarrow> 1024 < a \<Longrightarrow>
   handler_delay b d a e = Some (Inl OverflowError)"
  by (cases e) (auto simp: backoff_def)

lemma time_sleep_spec_delay:
  "0 \<le> b \<Longrightarrow> 0 \<le> d \<Longrightarrow> d \<le> sm \<Longrightarrow> 60 \<le> sm \<Longrightarrow> time_sleep sm (spec_delay b d a e) = None"
proof -
  have "0 \<le> b * 2 ^ nat (a - 1)" if "0 \<le> b"
    using that by simp
  then show "0 \<le> b \<Longrightarrow> 0 \<le> d \<Longrightarrow> d \<le> sm \<Longrightarrow> 60 \<le> sm \<Longrightarrow>
      time_sleep sm (spec_delay b d a e) = None"
    by (auto simp: time_sleep_def spec_delay_def min_def not_less)
qed

lemma retry_loop_fatal:
  "a \<le> m \<Longrightarrow> func a = Inl e \<Longrightarrow> \<not> spec_retryable e \<Longrightarrow>
   retry_loop sm func m b d a lst called slept =
     \<lparr>attempts = called @ [a], sleeps = slept, outcome = Inl e\<rparr>"
  by (subst retry_loop.simps) (simp add: handler_delay_fatal)

lemma retry_loop_retries:
  assumes "a \<le> m" and "func a = Inl e" and "spec_retryable e" and "a \<le> 1024"
    and "0 \<le> b" and "0 \<le> d" and "d \<le> sm" and "60 \<le> sm"
  shows "retry_loop sm func m b d a lst called slept =
     retry_loop sm func m b d (a + 1) (Some e) (called @ [a])
       (if a < m then slept @ [spec_delay b d a e] else slept)"
  using assms
  by (subst retry_loop.simps) (simp add: handler_delay_retried time_sleep_spec_delay)

lemma retry_loop_sleep_raises:
  assumes "a < m" and "func a = Inl e" and "handler_delay b d a e = Some (Inr delay)"
    and "time_sleep sm delay = Some x"
  shows "retry_loop sm func m b d a lst called slept =
     \<lparr>attempts = called @ [a], sleeps = slept, outcome = Inl x\<rparr>"
  using assms by (subst retry_loop.simps) simp

lemma retry_loop_delay_raises:
  assumes "a \<le> m" and "func a = Inl e" and "handler_delay b d a e = Some (Inl x)"
  shows "retry_loop sm func m b d a lst called slept =
     \<lparr>attempts = called @ [a], sleeps = slept, outcome = Inl x\<rparr>"
  using assms by (subst retry_loop.simps) simp

lemma retry_without_attempts:
  "max_attempts < 1 \<Longrightarrow>
   retry_with_backoff sm func max_attempts base_delay max_delay =
     \<lparr>attempts = [], sleeps = [], outcome = Inl TypeError\<rparr>"
  by (simp add: retry_with_backoff_def retry_loop_exhausted)

lemma retry_prefix:
  assumes "\<forall>i\<in>{a..<k}. fails_retryably (func i)" and "a \<le> k" and "k \<le> m" and "k \<le> 1025"
    and "0 \<le> b" and "0 \<le> d" and "d \<le> sm" and "60 \<le> sm"
  shows "\<exists>last'. retry_loop sm func m b d a lst called slept =
           retry_loop sm func m b d k last' (called @ [a..k - 1])
             (slept @ map (\<lambda>i. delay_after b d i (func i)) [a..k - 1])"
  using assms(1-4)
proof (induction "nat (k - a)" arbitrary: a lst called slept)
  case 0
  then have "a = k" by simp
  then show ?case by auto
next
  case (Suc n)
  then have lt: "a < k" by simp
  have "fails_retryably (func a)"
    using Suc.prems(1) lt by simp
  then obtain e where e: "func a = Inl e" "spec_retryable e"
    by (cases "func a") auto
  have am: "a < m" using lt Suc.prems(3) by simp
  have a1024: "a \<le> 1024" using lt Suc.prems(4) by simp
  have step: "retry_loop sm func m b d a lst called slept =
           retry_loop sm func m b d (a + 1) (Some e) (called @ [a])
             (slept @ [delay_after b d a (func a)])"
    using retry_loop_retries [of a m func e b d sm lst called slept] am e a1024 assms(5-8)
    by simp
  have n: "n = nat (k - (a + 1))" using Suc.hyps(2) by simp
  have rest: "\<forall>i\<in>{a + 1..<k}. fails_retryably (func i)"
    using Suc.prems(1) by simp
  have le: "a + 1 \<le> k" using lt by simp
  obtain last' where
    "retry_loop sm func m b d (a + 1) (Some e) (called @ [a])
             (slept @ [delay_after b d a (func a)]) =
     retry_loop sm func m b d k last' ((called @ [a]) @ [a + 1..k - 1])
             ((slept @ [delay_after b d a (func a)])
                @ map (\<lambda>i. delay_after b d i (func i)) [a + 1..k - 1])"
    using Suc.hyps(1) [OF n rest le Suc.prems(3) Suc.prems(4)] by blast
  moreover have "[a..k - 1] = a # [a + 1..k - 1]"
    using lt by (simp add: upto_rec1)
  ultimately show ?case
    using step by auto
qed

text \<open>
  The run ends otherwise when the handler itself raises. A negative delay makes
  \<^verbatim>\<open>time.sleep\<close> raise \<open>ValueError\<close>: the run ends after the first attempt. From
  attempt 1025 on, the backoff cannot be computed: \<open>OverflowError\<close>.
\<close>

lemma retry_negative_delay:
  assumes "func 1 = Inl e" and "spec_retryable e" and "e \<noteq> HTTPError 429"
    and "1 < max_attempts" and "base_delay < 0 \<or> max_delay < 0"
  shows "retry_with_backoff sm func max_attempts base_delay max_delay =
           \<lparr>attempts = [1], sleeps = [], outcome = Inl ValueError\<rparr>"
proof -
  have "handler_delay base_delay max_delay 1 e
          = Some (Inr (spec_delay base_delay max_delay 1 e))"
    using assms(2) by (simp add: handler_delay_retried)
  moreover have "time_sleep sm (spec_delay base_delay max_delay 1 e) = Some ValueError"
    using assms(3,5) by (auto simp: time_sleep_def spec_delay_def min_def)
  ultimately show ?thesis
    unfolding retry_with_backoff_def
    using retry_loop_sleep_raises [of 1 max_attempts func e base_delay max_delay _ sm ValueError
        None "[]" "[]"] assms(1,4)
    by simp
qed

lemma retry_overflow_at_1025:
  assumes "\<forall>i\<in>{1..<1025}. fails_retryably (func i)"
    and "func 1025 = Inl e" and "spec_retryable e" and "e \<noteq> HTTPError 429"
    and "1025 \<le> max_attempts"
    and "0 \<le> base_delay" and "0 \<le> max_delay" and "max_delay \<le> sm" and "60 \<le> sm"
  shows "attempts (retry_with_backoff sm func max_attempts base_delay max_delay) = [1..1025] \<and>
         outcome (retry_with_backoff sm func max_attempts base_delay max_delay)
           = Inl OverflowError"
proof -
  obtain last' where pre:
    "retry_with_backoff sm func max_attempts base_delay max_delay =
       retry_loop sm func max_attempts base_delay max_delay 1025 last' [1..1024]
         (map (\<lambda>i. delay_after base_delay max_delay i (func i)) [1..1024])"
    unfolding retry_with_backoff_def
    using retry_prefix [OF assms(1) _ assms(5) _ assms(6-9), of None "[]" "[]"]
    by auto
  have up: "[1..1024] @ [1025] = [1..1025::int]"
    by (simp add: upto_rec2)
  show ?thesis
    unfolding pre
    using retry_loop_delay_raises [of 1025 max_attempts func e base_delay max_delay
        OverflowError sm] assms(2,5)
      handler_delay_overflow [OF assms(3,4), of 1025 base_delay max_delay] up
    by simp
qed

text \<open>
  C6. \<open>retry_with_backoff\<close> calls the operation at attempts 1, 2, ... While the attempts
  fail with a retried failure (429, 5xx, network-level) and attempts remain, each
  failure is followed by one sleep, 60 seconds after a 429 whatever the attempt and
  \<open>min (base_delay * 2 ^ (attempt - 1)) max_delay\<close> after a 5xx or a network-level
  failure, and by the next attempt. The run ends at the first attempt \<open>k\<close> that returns
  (with its value), or that fails with any other error, another 4xx among them (that
  error is raised at once: no sleep follows and no further attempt is made), or at
  attempt \<open>max_attempts\<close>, whose exception is raised when it fails as well. This is for
  delays that \<^verbatim>\<open>time.sleep\<close> takes (\<open>base_delay\<close> and \<open>max_delay\<close> not negative, and
  neither \<open>max_delay\<close> nor the 60 seconds beyond the longest sleep) and for the first
  1024 attempts, up to which the backoff can be computed.
\<close>

theorem retry_with_backoff_policy:
  assumes "1 \<le> k" and "k \<le> max_attempts"
    and "\<forall>i\<in>{1..<k}. fails_retryably (func i)"
    and "k \<le> 1024"
    and "0 \<le> base_delay" and "0 \<le> max_delay" and "max_delay \<le> limit"
    and "60 \<le> limit"
  shows "(func k = Inr v \<longrightarrow>
            retry_with_backoff limit func max_attempts base_delay max_delay =
              \<lparr>attempts = [1..k],
               sleeps = map (\<lambda>i. delay_after base_delay max_delay i (func i)) [1..k - 1],
               outcome = Inr v\<rparr>) \<and>
         (func k = Inl e \<and> \<not> spec_retryable e \<longrightarrow>
            retry_with_backoff limit func max_attempts base_delay max_delay =
              \<lparr>attempts = [1..k],
               sleeps = map (\<lambda>i. delay_after base_delay max_delay i (func i)) [1..k - 1],
               outcome = Inl e\<rparr>) \<and>
         (func k = Inl e \<and> spec_retryable e \<and> k = max_attempts \<longrightarrow>
            retry_with_backoff limit func max_attempts base_delay max_delay =
              \<lparr>attempts = [1..max_attempts],
               sleeps = map (\<lambda>i. delay_after base_delay max_delay i (func i))
                          [1..max_attempts - 1],
               outcome = Inl e\<rparr>)"
proof -
  let ?slept = "map (\<lambda>i. delay_after base_delay max_delay i (func i)) [1..k - 1]"
  have k1025: "k \<le> 1025"
    using assms(4) by simp
  obtain last' where pre:
    "retry_with_backoff limit func max_attempts base_delay max_delay =
       retry_loop limit func max_attempts base_delay max_delay k last' [1..k - 1] ?slept"
    unfolding retry_with_backoff_def
    using retry_prefix [OF assms(3) assms(1) assms(2) k1025 assms(5-8), of None "[]" "[]"]
    by auto
  have up: "[1..k - 1] @ [k] = [1..k]"
    using assms(1) by (simp add: upto_rec2)
  have "func k = Inr v \<Longrightarrow> ?thesis"
    using retry_loop_returns [OF assms(2), of func v] by (simp add: pre up)
  moreover have "func k = Inl e \<Longrightarrow> \<not> spec_retryable e \<Longrightarrow> ?thesis"
    using retry_loop_fatal [OF assms(2), of func e] by (simp add: pre up)
  moreover have "func k = Inl e \<Longrightarrow> spec_retryable e \<Longrightarrow> k = max_attempts \<Longrightarrow> ?thesis"
    using retry_loop_retries [of k max_attempts func e base_delay max_delay limit]
      retry_loop_exhausted [of max_attempts "k + 1" limit func] up assms(4-8)
    by (simp add: pre)
  ultimately show ?thesis by auto
qed

theorem retry_with_backoff_policy_witness:
  "retry_with_backoff 1000000
     (\<lambda>i. if i = 1 then Inl (HTTPError 503) else if i = 2 then Inl (HTTPError 429)
          else (Inl URLError :: exc + nat)) 3 2 60
     = \<lparr>attempts = [1, 2, 3], sleeps = [2, 60], outcome = Inl URLError\<rparr> \<and>
   retry_with_backoff 1000000
     (\<lambda>i. if i = 1 then Inl TimeoutError else (Inl (HTTPError 404) :: exc + nat)) 3 2 60
     = \<lparr>attempts = [1, 2], sleeps = [2], outcome = Inl (HTTPError 404)\<rparr> \<and>
   retry_with_backoff 1000000
     (\<lambda>i. if i = 1 then Inl (HTTPError 500) else if i = 2 then Inl ConnectionError
          else (Inr 7 :: exc + nat)) 5 2 3
     = \<lparr>attempts = [1, 2, 3], sleeps = [2, 3], outcome = Inr 7\<rparr>"
proof -
  let ?f = "\<lambda>i::int. if i = 1 then Inl (HTTPError 503) else if i = 2 then Inl (HTTPError 429)
          else (Inl URLError :: exc + nat)"
  let ?g = "\<lambda>i::int. if i = 1 then Inl TimeoutError else (Inl (HTTPError 404) :: exc + nat)"
  let ?h = "\<lambda>i::int. if i = 1 then Inl (HTTPError 500) else if i = 2 then Inl ConnectionError
          else (Inr 7 :: exc + nat)"
  have three: "[1..3] = [1, 2, 3::int]" and two: "[1..2] = [1, 2::int]"
    and one: "[1..1] = [1::int]"
    by (simp_all add: upto_rec1)
  have f: "\<forall>i\<in>{1..<3}. fails_retryably (?f i)"
    by auto
  have g: "\<forall>i\<in>{1..<2}. fails_retryably (?g i)"
    by auto
  have h: "\<forall>i\<in>{1..<3}. fails_retryably (?h i)"
    by auto
  have "retry_with_backoff 1000000 ?f 3 2 60
          = \<lparr>attempts = [1, 2, 3], sleeps = [2, 60], outcome = Inl URLError\<rparr>"
    using retry_with_backoff_policy [of 3 3 ?f 2 60 1000000 undefined URLError, OF _ _ f]
    by (simp add: three two spec_delay_def)
  moreover have "retry_with_backoff 1000000 ?g 3 2 60
          = \<lparr>attempts = [1, 2], sleeps = [2], outcome = Inl (HTTPError 404)\<rparr>"
    using retry_with_backoff_policy [of 2 3 ?g 2 60 1000000 undefined "HTTPError 404", OF _ _ g]
    by (simp add: two one spec_delay_def)
  moreover have "retry_with_backoff 1000000 ?h 5 2 3
          = \<lparr>attempts = [1, 2, 3], sleeps = [2, 3], outcome = Inr 7\<rparr>"
    using retry_with_backoff_policy [of 3 5 ?h 2 3 1000000 7 undefined, OF _ _ h]
    by (simp add: three two spec_delay_def)
  ultimately show ?thesis by simp
qed

section \<open>Properties of the threshold scan and its cache\<close>

lemma retry_outcome_first_ok:
  "1 \<le> m \<Longrightarrow> func 1 = Inr v \<Longrightarrow> outcome (retry_with_backoff sm func m b d) = Inr v"
  by (simp add: retry_with_backoff_def retry_loop_returns)

lemma retry_outcome_all_fail:
  assumes "1 \<le> m" and "m \<le> 1024" and "\<forall>i. func i = Inl e" and "spec_retryable e"
    and "0 \<le> b" and "0 \<le> d" and "d \<le> sm" and "60 \<le> sm"
  shows "outcome (retry_with_backoff sm func m b d) = Inl e"
proof -
  have "\<forall>i\<in>{1..<m}. fails_retryably (func i)"
    using assms(3,4) by simp
  then obtain last' called slept where
    "retry_with_backoff sm func m b d = retry_loop sm func m b d m last' called slept"
    unfolding retry_with_backoff_def
    using retry_prefix [of 1 m func m b d sm None "[]" "[]"] assms(1,2,5-8) by auto
  moreover have "outcome (retry_loop sm func m b d m last' called slept) = Inl e"
    using assms(2-8) retry_loop_retries [of m m func e b d sm last' called slept]
    by (simp add: retry_loop_exhausted)
  ultimately show ?thesis by simp
qed

lemma clean_apr_spec_normalise: "clean_apr s = spec_normalise s"
  by (induction s) (auto simp: clean_apr_def spec_normalise_def)

lemma sort_apr_percent_raises:
  "record_failure py (JDict d) = Some e \<Longrightarrow> sort_apr_percent py d = Inl e"
  by (auto simp: sort_apr_percent_def dict_get_def split: option.splits json.splits if_splits)

lemma sort_apr_percent_spec_rate:
  "record_failure py (JDict d) = None \<Longrightarrow> sort_apr_percent py d = Inr (spec_rate py (JDict d))"
  by (auto simp: sort_apr_percent_def dict_get_def clean_apr_spec_normalise
      split: option.splits json.splits if_splits)

lemma map_filter_Cons:
  "List.map_filter f (x # xs) =
     (case f x of None \<Rightarrow> List.map_filter f xs | Some y \<Rightarrow> y # List.map_filter f xs)"
  by (simp add: List.map_filter_def split: option.splits)

lemma matched_loop_filter:
  "matched_loop py t acc items =
     (case List.map_filter (record_failure py) items of
        [] \<Rightarrow> Inr (acc @ filter (rate_above py t) items)
      | e # es \<Rightarrow> Inl e)"
proof (induction items arbitrary: acc)
  case Nil
  then show ?case by (simp add: List.map_filter_def)
next
  case (Cons item items)
  show ?case
  proof (cases item)
    case (JDict d)
    show ?thesis
    proof (cases "record_failure py (JDict d)")
      case None
      have "sort_apr_percent py d = Inr (spec_rate py (JDict d))"
        using None by (rule sort_apr_percent_spec_rate)
      moreover have "rate_above py t (JDict d) =
          (case spec_rate py (JDict d) of Some rate \<Rightarrow> rate > t | None \<Rightarrow> False)"
        by (simp only: rate_above_def)
      ultimately show ?thesis
        using None Cons.IH unfolding JDict
        by (simp add: map_filter_Cons del: spec_rate.simps record_failure.simps
            split: option.splits list.splits)
    next
      case (Some e)
      have "sort_apr_percent py d = Inl e"
        using Some by (rule sort_apr_percent_raises)
      then show ?thesis
        using Some unfolding JDict
        by (simp add: map_filter_Cons del: spec_rate.simps record_failure.simps)
    qed
  qed (simp_all add: map_filter_Cons)
qed

lemma process_page_outcome:
  "process_page py cfg w p t =
     (case page_failure py cfg w p of
        None \<Rightarrow> Inr (filter (rate_above py t) (page_records cfg w p))
      | Some e \<Rightarrow> Inl e)"
  by (simp add: process_page_def page_failure_def page_records_def matched_loop_filter
      split: sum.splits json.splits list.splits)

lemma collect_returned:
  "mset (fst (collect task ps res lg)) =
     mset res + sum_mset (image_mset (\<lambda>p. case task p of Inr m \<Rightarrow> mset m | Inl e \<Rightarrow> {#})
       (mset ps))"
  by (induction ps arbitrary: res lg) (auto split: sum.splits)

lemma collect_logged:
  "mset (snd (collect task ps res lg)) =
     mset lg + image_mset (\<lambda>p. case task p of Inr m \<Rightarrow> Page_ok p (length m)
                                | Inl e \<Rightarrow> Page_error p e) (mset ps)"
  by (induction ps arbitrary: res lg) (auto split: sum.splits)

lemma process_page_matches:
  "(case process_page py cfg w p t of Inr m \<Rightarrow> mset m | Inl e \<Rightarrow> {#})
     = mset (page_matches py cfg w t p)"
  by (simp add: process_page_outcome page_matches_def split: option.splits)

lemma process_page_log:
  "(case process_page py cfg w p t of Inr m \<Rightarrow> Page_ok p (length m) | Inl e \<Rightarrow> Page_error p e)
     = page_log py cfg w t p"
  by (simp add: process_page_outcome page_log_def split: option.splits)

lemma fetch_page_exhausted:
  assumes "1 \<le> MAX_RETRIES cfg" and "MAX_RETRIES cfg \<le> 1024" and "60 \<le> sleep_max w"
    and "spec_retryable e" and "\<forall>i. do_request w p i = Inl e"
  shows "fetch_page cfg w p = Inl e"
  unfolding fetch_page_def
  using retry_outcome_all_fail [OF assms(1,2,5,4), of 2 60 "sleep_max w"] assms(3)
  by simp

text \<open>
  A record with no rate, a null or an unreadable one is below every threshold, also a
  negative one: no value is not zero.
\<close>

lemma no_rate_never_matches:
  "map_of d ''sort_apr'' = None \<Longrightarrow> \<not> rate_above py t (JDict d)"
  "map_of d ''sort_apr'' = Some JNull \<Longrightarrow> \<not> rate_above py t (JDict d)"
  "map_of d ''sort_apr'' = Some (JStr s) \<Longrightarrow> float_of_str py (spec_normalise s) = None \<Longrightarrow>
     \<not> rate_above py t (JDict d)"
  by (simp_all add: rate_above_def)

text \<open>
  C7. A full scan (cache bypassed) submits one task for each page 1..TOTAL_PAGES and
  always returns. The returned records are, as a multiset (the order is that of
  completion), the union over the pages of what each page gives: the records of the page
  whose rate is a value strictly greater than the threshold, for a page whose task
  succeeds, and nothing for a page whose task fails; a record with no rate, or with one
  that cannot be read, has no value and does not match, while a boolean rate counts as
  the number 1 or 0. Each page has its log line, with
  the number of its matches or with its error. A page whose fetch raises fails with
  that exception: it is logged and gives nothing; and the fetch raises when every
  attempt of the request fails with the same retried failure.
\<close>

theorem scan_skips_failed_pages:
  fixes py cfg w cache t
  defines "r \<equiv> fetch_projects_with_apr_gt py cfg w cache t True"
  shows "submitted r = [1..TOTAL_PAGES cfg] \<and>
         mset (returned r) =
           sum_mset (image_mset (\<lambda>p. mset (page_matches py cfg w t p))
             (mset [1..TOTAL_PAGES cfg])) \<and>
         mset (logged r) = image_mset (page_log py cfg w t) (mset [1..TOTAL_PAGES cfg]) \<and>
         (\<forall>p e. fetch_page cfg w p = Inl e \<longrightarrow>
            page_matches py cfg w t p = [] \<and> page_log py cfg w t p = Page_error p e) \<and>
         (\<forall>p e. 1 \<le> MAX_RETRIES cfg \<and> MAX_RETRIES cfg \<le> 1024 \<and> 60 \<le> sleep_max w \<and>
                spec_retryable e \<and> (\<forall>i. do_request w p i = Inl e) \<longrightarrow>
            fetch_page cfg w p = Inl e)"
proof -
  have "submitted r = [1..TOTAL_PAGES cfg]"
    by (simp add: r_def fetch_projects_with_apr_gt_def Let_def)
  moreover have "mset (returned r) =
           sum_mset (image_mset (\<lambda>p. mset (page_matches py cfg w t p))
             (mset [1..TOTAL_PAGES cfg]))"
    by (simp add: r_def fetch_projects_with_apr_gt_def Let_def collect_returned
        process_page_matches)
  moreover have "mset (logged r) = image_mset (page_log py cfg w t) (mset [1..TOTAL_PAGES cfg])"
    by (simp add: r_def fetch_projects_with_apr_gt_def Let_def collect_logged process_page_log)
  moreover have "\<forall>p e. fetch_page cfg w p = Inl e \<longrightarrow>
            page_matches py cfg w t p = [] \<and> page_log py cfg w t p = Page_error p e"
    by (simp add: page_matches_def page_log_def page_failure_def)
  moreover have "\<forall>p e. 1 \<le> MAX_RETRIES cfg \<and> MAX_RETRIES cfg \<le> 1024 \<and> 60 \<le> sleep_max w \<and>
                spec_retryable e \<and> (\<forall>i. do_request w p i = Inl e) \<longrightarrow>
            fetch_page cfg w p = Inl e"
    using fetch_page_exhausted by blast
  ultimately show ?thesis by simp
qed

theorem scan_skips_failed_pages_witness:
  "(let a = JDict [(''asset'', JStr ''AAA''), (''sort_apr'', JStr ''3,5%'')];
        b = JDict [(''asset'', JStr ''BBB''), (''sort_apr'', JFloat (3 / 2))];
        c = JDict [(''asset'', JStr ''CCC''), (''sort_apr'', JInt 7)];
        d = JDict [(''asset'', JStr ''DDD'')];
        u = JDict [(''asset'', JStr ''UUU''), (''sort_apr'', JStr ''n/a'')];
        n = JDict [(''asset'', JStr ''NNN''), (''sort_apr'', JNull)];
        g = JDict [(''asset'', JStr ''GGG''), (''sort_apr'', JInt (2 ^ 1024))];
        h = JDict [(''asset'', JStr ''HHH''), (''sort_apr'', JInt 9)];
        py = \<lparr>float_of_str = (\<lambda>s. if s = ''3.5'' then Some (7 / 2) else None),
              float_of_int = (\<lambda>i. if 2 ^ 1024 \<le> \<bar>i\<bar> then None else Some (real_of_int i)),
              py_str = (\<lambda>v. []), upper = (\<lambda>s. s), lower = (\<lambda>s. s)\<rparr>;
        cfg = \<lparr>TOTAL_PAGES = 4, MAX_RETRIES = 3\<rparr>;
        w = \<lparr>now_lookup = 0, now_store = 10,
             do_request = (\<lambda>page attempt.
               if page = 1 then Inr (JDict [(''data'', JDict [(''list'', JList [a, b])])])
               else if page = 3 then Inr (JDict [(''data'', JList [c, d, u, n])])
               else if page = 4 then Inr (JDict [(''rows'', JList [h, g])])
               else Inl URLError),
             sleep_max = 1000000,
             finished_at = (\<lambda>page. if page = 3 then 0 else 1)\<rparr>;
        low = fetch_projects_with_apr_gt py cfg w [] (- 1) True;
        high = fetch_projects_with_apr_gt py cfg w [] 2 True
    in submitted low = [1, 2, 3, 4] \<and>
       mset (returned low) = {#a, b, c#} \<and>
       mset (logged low)
         = {#Page_ok 1 2, Page_error 2 URLError, Page_ok 3 1, Page_error 4 OverflowError#} \<and>
       submitted high = [1, 2, 3, 4] \<and>
       mset (returned high) = {#a, c#} \<and>
       mset (logged high)
         = {#Page_ok 1 1, Page_error 2 URLError, Page_ok 3 1, Page_error 4 OverflowError#} \<and>
       fetch_page cfg w 2 = Inl URLError)"
proof -
  define a where "a = JDict [(''asset'', JStr ''AAA''), (''sort_apr'', JStr ''3,5%'')]"
  define b where "b = JDict [(''asset'', JStr ''BBB''), (''sort_apr'', JFloat (3 / 2))]"
  define c where "c = JDict [(''asset'', JStr ''CCC''), (''sort_apr'', JInt 7)]"
  define d where "d = JDict [(''asset'', JStr ''DDD'')]"
  define u where "u = JDict [(''asset'', JStr ''UUU''), (''sort_apr'', JStr ''n/a'')]"
  define n where "n = JDict [(''asset'', JStr ''NNN''), (''sort_apr'', JNull)]"
  define g where "g = JDict [(''asset'', JStr ''GGG''), (''sort_apr'', JInt (2 ^ 1024))]"
  define h where "h = JDict [(''asset'', JStr ''HHH''), (''sort_apr'', JInt 9)]"
  define py where "py = \<lparr>float_of_str = (\<lambda>s. if s = ''3.5'' then Some (7 / 2 :: real) else None),
              float_of_int = (\<lambda>i :: int. if 2 ^ 1024 \<le> \<bar>i\<bar> then None
                                          else Some (real_of_int i)),
              py_str = (\<lambda>v :: json. [] :: string), upper = (\<lambda>s :: string. s),
              lower = (\<lambda>s :: string. s)\<rparr>"
  define cfg where "cfg = \<lparr>TOTAL_PAGES = 4, MAX_RETRIES = 3\<rparr>"
  define w where "w = \<lparr>now_lookup = 0, now_store = 10,
             do_request = (\<lambda>page attempt :: int.
               if page = (1::int) then Inr (JDict [(''data'', JDict [(''list'', JList [a, b])])])
               else if page = 3 then Inr (JDict [(''data'', JList [c, d, u, n])])
               else if page = 4 then Inr (JDict [(''rows'', JList [h, g])])
               else Inl URLError),
             sleep_max = 1000000,
             finished_at = (\<lambda>page. if page = 3 then 0 else (1::nat))\<rparr>"
  have pages: "[1..TOTAL_PAGES cfg] = [1, 2, 3, 4]"
    by (simp add: cfg_def upto_rec1)
  have f1: "fetch_page cfg w 1 = Inr (JDict [(''data'', JDict [(''list'', JList [a, b])])])"
    by (simp add: fetch_page_def cfg_def w_def retry_outcome_first_ok)
  have f3: "fetch_page cfg w 3 = Inr (JDict [(''data'', JList [c, d, u, n])])"
    by (simp add: fetch_page_def cfg_def w_def retry_outcome_first_ok)
  have f4: "fetch_page cfg w 4 = Inr (JDict [(''rows'', JList [h, g])])"
    by (simp add: fetch_page_def cfg_def w_def retry_outcome_first_ok)
  have r1: "page_records cfg w 1 = [a, b]"
    by (simp add: page_records_def f1 extract_projects_def dict_get_def)
  have r3: "page_records cfg w 3 = [c, d, u, n]"
    by (simp add: page_records_def f3 extract_projects_def dict_get_def)
  have ok: "record_failure py a = None" "record_failure py b = None"
    "record_failure py c = None" "record_failure py d = None" "record_failure py u = None"
    "record_failure py n = None" "record_failure py h = None"
    by (simp_all add: a_def b_def c_def d_def u_def n_def h_def py_def)
  have bad: "record_failure py g = Some OverflowError"
    by (simp add: g_def py_def)
  have pf1: "page_failure py cfg w 1 = None"
    by (simp add: page_failure_def f1 extract_projects_def dict_get_def map_filter_Cons ok
        List.map_filter_def)
  have pf3: "page_failure py cfg w 3 = None"
    by (simp add: page_failure_def f3 extract_projects_def dict_get_def map_filter_Cons ok
        List.map_filter_def)
  have pf4: "page_failure py cfg w 4 = Some OverflowError"
    by (simp add: page_failure_def f4 extract_projects_def dict_get_def map_filter_Cons ok bad)
  have rates: "spec_rate py a = Some (7 / 2)" "spec_rate py b = Some (3 / 2)"
    "spec_rate py c = Some 7" "spec_rate py d = None" "spec_rate py u = None"
    "spec_rate py n = None"
    by (simp_all add: a_def b_def c_def d_def u_def n_def py_def spec_normalise_def)
  note scan = scan_skips_failed_pages [of py cfg w "[]"]
  have "\<forall>i. do_request w 2 i = Inl URLError"
    by (simp add: w_def)
  then have f2: "fetch_page cfg w 2 = Inl URLError"
    using scan [of 2] by (simp add: cfg_def w_def)
  have pf2: "page_failure py cfg w 2 = Some URLError"
    by (simp add: page_failure_def f2)
  have low: "submitted (fetch_projects_with_apr_gt py cfg w [] (- 1) True) = [1, 2, 3, 4] \<and>
       mset (returned (fetch_projects_with_apr_gt py cfg w [] (- 1) True)) = {#a, b, c#} \<and>
       mset (logged (fetch_projects_with_apr_gt py cfg w [] (- 1) True))
         = {#Page_ok 1 2, Page_error 2 URLError, Page_ok 3 1, Page_error 4 OverflowError#}"
    using scan [of "- 1"]
    by (simp add: pages page_matches_def page_log_def pf1 pf2 pf3 pf4 r1 r3 rate_above_def
        rates)
  have high: "submitted (fetch_projects_with_apr_gt py cfg w [] 2 True) = [1, 2, 3, 4] \<and>
       mset (returned (fetch_projects_with_apr_gt py cfg w [] 2 True)) = {#a, c#} \<and>
       mset (logged (fetch_projects_with_apr_gt py cfg w [] 2 True))
         = {#Page_ok 1 1, Page_error 2 URLError, Page_ok 3 1, Page_error 4 OverflowError#}"
    using scan [of 2]
    by (simp add: pages page_matches_def page_log_def pf1 pf2 pf3 pf4 r1 r3 rate_above_def
        rates)
  show ?thesis
    using low high f2
    unfolding Let_def a_def b_def c_def d_def u_def n_def g_def h_def py_def cfg_def w_def
    by simp
qed

lemma cache_get_after_set:
  "cache_get (cache_set cache now t d) now' t ttl = (if now' - now \<le> ttl then Some d else None)"
  by (simp add: cache_get_def cache_set_def is_expired_def update_conv)

lemma scan_uses_fresh_nonempty_entry:
  assumes "d \<noteq> []" and "now_lookup w - now \<le> 300"
  shows "fetch_projects_with_apr_gt py cfg w (cache_set cache now t d) t False =
           \<lparr>returned = d, cache_after = cache_set cache now t d, submitted = [],
            logged = []\<rparr>"
  using assms
  by (cases d) (simp_all add: fetch_projects_with_apr_gt_def cache_get_after_set)

lemma scan_after_expiry:
  assumes "now_lookup w - now > 300"
  shows "submitted (fetch_projects_with_apr_gt py cfg w (cache_set cache now t d) t False)
           = [1..TOTAL_PAGES cfg]"
  using assms
  by (simp add: fetch_projects_with_apr_gt_def cache_get_after_set Let_def)

lemma scan_ignores_fresh_empty_entry:
  "submitted (fetch_projects_with_apr_gt py cfg w (cache_set cache now t []) t False)
           = [1..TOTAL_PAGES cfg]"
  by (simp add: fetch_projects_with_apr_gt_def cache_get_after_set Let_def)

text \<open>
  C5. After \<open>set(t, d)\<close>, \<open>get(t, ttl)\<close> returns \<open>d\<close> while \<open>now - created_at \<le> ttl\<close> and no
  value afterwards (\<open>cache_get_after_set\<close>); a scan within the TTL returns a cached
  non-empty \<open>d\<close> without submitting a page (\<open>scan_uses_fresh_nonempty_entry\<close>) and a scan
  after expiry submits every page again (\<open>scan_after_expiry\<close>). The claim also covers the
  empty list, and there the code does otherwise: with the empty result of threshold 2
  cached at time 0, \<open>get\<close> at time 10 returns it, yet a scan at time 10 without
  \<open>force_refresh\<close> submits all the 112 pages again.
\<close>

theorem cached_empty_result_is_scanned_again:
  "cache_get (cache_set [] 0 2 []) 10 2 300 = Some [] \<and>
   submitted
     (fetch_projects_with_apr_gt
        \<lparr>float_of_str = (\<lambda>s. None), float_of_int = (\<lambda>i. Some (real_of_int i)),
         py_str = (\<lambda>v. []), upper = (\<lambda>s. s), lower = (\<lambda>s. s)\<rparr>
        config
        \<lparr>now_lookup = 10, now_store = 20, do_request = (\<lambda>page attempt. Inl URLError),
         sleep_max = 1000000, finished_at = (\<lambda>page. 0)\<rparr>
        (cache_set [] 0 2 []) 2 False)
     = [1..112]"
  by (simp add: cache_get_after_set scan_ignores_fresh_empty_entry config_def)

section \<open>Properties of the registry\<close>

lemma coins_of_chat:
  "map_of (watch st) chat_id = Some coins \<Longrightarrow> coins_of st chat_id = coins"
  "map_of (watch st) chat_id = None \<Longrightarrow> coins_of st chat_id = []"
  by (simp_all add: coins_of_def)

lemma mirrors_add_subscriber: "mirrors st \<Longrightarrow> mirrors (add_subscriber st chat_id)"
proof -
  assume m: "mirrors st"
  have c: "coins_of (st\<lparr>watch := watch st @ [(chat_id, [])]\<rparr>) chat' = coins_of st chat'"
    if "chat_id \<notin> fst ` set (watch st)" for chat'
  proof -
    have "map_of (watch st) chat_id = None"
      using that by (simp add: map_of_eq_None_iff)
    then show ?thesis
      by (auto simp: coins_of_def map_add_def split: option.splits)
  qed
  show ?thesis
    using m c
    by (auto simp: coins_of_def mirrors_def add_subscriber_def db_add_subscriber_def
        db_get_all_subscribers_def split: if_splits)
qed

lemma mirrors_set_watch: "mirrors st \<Longrightarrow> mirrors (set_watch st chat_id c status)"
  by (auto simp: coins_of_def mirrors_def set_watch_def db_add_watch_def watch_put_def update_conv
      update_conv db_get_all_subscribers_def)

lemma mirrors_remove_watch: "mirrors st \<Longrightarrow> mirrors (snd (remove_watch st chat_id c))"
proof -
  assume m: "mirrors st"
  show ?thesis
  proof (cases "map_of (watch st) chat_id")
    case None
    then have "coins_of st chat_id = []" by (simp add: coins_of_def)
    with m have "map_of (watches_table (db st)) (chat_id, c) = None"
      by (auto simp: coins_of_def mirrors_def dest: spec [of _ chat_id])
    then show ?thesis
      using m None
      by (auto simp: coins_of_def mirrors_def remove_watch_def db_remove_watch_def delete_conv
          db_get_all_subscribers_def)
  next
    case (Some coins)
    then have "coins_of st chat_id = coins" by (simp add: coins_of_def)
    with m have inst: "map_of coins ca = map_of (watches_table (db st)) (chat_id, ca)" for ca
      by (auto simp: mirrors_def)
    show ?thesis
      using m Some inst
      by (auto simp: coins_of_def mirrors_def remove_watch_def db_remove_watch_def delete_conv
          update_conv db_get_all_subscribers_def)
  qed
qed

lemma fold_db_remove_watch:
  "map_of (watches_table (fold (\<lambda>c d. snd (db_remove_watch d chat_id c)) cs d)) (chat', c') =
     (if chat' = chat_id \<and> c' \<in> set cs then None else map_of (watches_table d) (chat', c'))"
  by (induction cs arbitrary: d) (auto simp: db_remove_watch_def delete_conv)

lemma fold_db_remove_watch_subscribers:
  "subscribers_table (fold (\<lambda>c d. snd (db_remove_watch d chat_id c)) cs d) = subscribers_table d"
  by (induction cs arbitrary: d) (auto simp: db_remove_watch_def)

lemma mirrors_clear_watches: "mirrors st \<Longrightarrow> mirrors (clear_watches st chat_id)"
proof -
  assume m: "mirrors st"
  have gone: "map_of (watches_table (db st)) (chat_id, c') = None"
    if "c' \<notin> set (map fst (coins_of st chat_id))" for c'
  proof -
    have "map_of (coins_of st chat_id) c' = None"
      using that by (simp add: map_of_eq_None_iff)
    with m show ?thesis by (simp add: mirrors_def)
  qed
  show ?thesis
    using m gone
    by (auto simp: coins_of_def mirrors_def clear_watches_def update_conv fold_db_remove_watch
        fold_db_remove_watch_subscribers db_get_all_subscribers_def)
qed

lemma mirrors_update_status_of_watch:
  assumes "mirrors st" and "map_of (coins_of st chat_id) c \<noteq> None"
  shows "mirrors (snd (update_status st chat_id c new_status))"
proof -
  have "(chat_id, c) \<in> dom (map_of (watches_table (db st)))"
    using assms by (auto simp: mirrors_def)
  then show ?thesis
    using assms(1)
    by (auto simp: coins_of_def mirrors_def update_status_def db_update_watch_status_def watch_put_def
        update_conv update_conv map_of_map_entry db_get_all_subscribers_def Let_def)
qed

text \<open>
  C4. Every mutating operation of the registry leaves the registry a mirror of the
  store. This holds of \<open>add_subscriber\<close>, \<open>set_watch\<close>, \<open>remove_watch\<close> and \<open>clear_watches\<close>,
  and of \<open>update_status\<close> on a watch the registry holds (the lemmas above). It fails for
  \<open>update_status\<close> on a watch that has been removed, which the monitor calls when the
  watch is removed after the pass has listed it: the \<open>UPDATE\<close> finds no row and the
  store stays without the watch, while the registry gets it back.
\<close>

theorem update_status_of_removed_watch_diverges:
  "(let s = Status_text [JInt 1] None (Some 5);
        s' = Status_text [JInt 2] None (Some 65);
        st0 = \<lparr>db = \<lparr>subscribers_table = [], watches_table = []\<rparr>,
               global_failures = 0, global_alerted = False, coin_failures = [],
               coin_alerted = [], subscribers = [], watch = []\<rparr>;
        st1 = set_watch (add_subscriber st0 ''7'') ''7'' ''algo'' s;
        st2 = snd (remove_watch st1 ''7'' ''algo'');
        st3 = snd (update_status st2 ''7'' ''algo'' s')
    in mirrors st0 \<and> mirrors st1 \<and> mirrors st2 \<and> \<not> mirrors st3 \<and>
       get_watches st3 = [(''7'', ''algo'', s')] \<and>
       db_get_all_watches (db st3) = [])"
proof -
  define s where "s = Status_text [JInt 1] None (Some 5)"
  define s' where "s' = Status_text [JInt 2] None (Some 65)"
  define st0 where "st0 = \<lparr>db = \<lparr>subscribers_table = [], watches_table = []\<rparr>,
               global_failures = 0, global_alerted = False, coin_failures = [],
               coin_alerted = [], subscribers = [], watch = []\<rparr>"
  define st1 where "st1 = set_watch (add_subscriber st0 ''7'') ''7'' ''algo'' s"
  define st2 where "st2 = snd (remove_watch st1 ''7'' ''algo'')"
  define st3 where "st3 = snd (update_status st2 ''7'' ''algo'' s')"
  have m0: "mirrors st0"
    by (simp add: mirrors_def st0_def db_get_all_subscribers_def coins_of_def)
  have m1: "mirrors st1"
    unfolding st1_def by (intro mirrors_set_watch mirrors_add_subscriber m0)
  have m2: "mirrors st2"
    unfolding st2_def by (intro mirrors_remove_watch m1)
  have st2: "st2 = \<lparr>db = \<lparr>subscribers_table = [(''7'', False)], watches_table = []\<rparr>,
               global_failures = 0, global_alerted = False, coin_failures = [],
               coin_alerted = [], subscribers = [''7''], watch = [(''7'', [])]\<rparr>"
    by (simp add: st2_def st1_def st0_def remove_watch_def set_watch_def add_subscriber_def
        db_add_subscriber_def db_remove_watch_def db_add_watch_def watch_put_def coins_of_def
        delete_conv AList.delete_eq)
  have st3: "st3 = \<lparr>db = \<lparr>subscribers_table = [(''7'', False)], watches_table = []\<rparr>,
               global_failures = 0, global_alerted = False, coin_failures = [],
               coin_alerted = [], subscribers = [''7''], watch = [(''7'', [(''algo'', s')])]\<rparr>"
    by (simp add: st3_def st2 update_status_def db_update_watch_status_def watch_put_def
        coins_of_def)
  have "map_of (coins_of st3 ''7'') ''algo'' \<noteq> map_of (watches_table (db st3)) (''7'', ''algo'')"
    by (simp add: st3 coins_of_def)
  then have m3: "\<not> mirrors st3"
    unfolding mirrors_def by blast
  have "get_watches st3 = [(''7'', ''algo'', s')]" "db_get_all_watches (db st3) = []"
    by (simp_all add: st3 get_watches_def db_get_all_watches_def)
  then show ?thesis
    using m0 m1 m2 m3
    unfolding Let_def s_def s'_def st0_def st1_def st2_def st3_def by simp
qed

section \<open>Properties of the monitor\<close>

lemma update_status_wrote:
  "fst (update_status st chat_id c s) \<longleftrightarrow> map_of (coins_of st chat_id) c \<noteq> Some s"
  by (simp add: update_status_def Let_def)

lemma update_status_stored:
  "map_of (coins_of (snd (update_status st chat_id c s)) chat_id) c = Some s"
  by (simp add: update_status_def Let_def watch_put_def coins_of_def update_conv)

lemma update_status_other:
  "(chat', c') \<noteq> (chat_id, c) \<Longrightarrow>
   map_of (coins_of (snd (update_status st chat_id c s)) chat') c' = map_of (coins_of st chat') c'"
  by (auto simp: update_status_def Let_def watch_put_def coins_of_def update_conv)

lemma update_status_keeps:
  "subscribers_table (db (snd (update_status st chat_id c s))) = subscribers_table (db st)"
  "subscribers (snd (update_status st chat_id c s)) = subscribers st"
  "global_alerted (snd (update_status st chat_id c s)) = global_alerted st"
  by (simp_all add: update_status_def Let_def db_update_watch_status_def)

lemma update_status_paused:
  "db_is_paused (db (snd (update_status st chat_id c s))) chat' = db_is_paused (db st) chat'"
  by (simp add: db_is_paused_def update_status_keeps)

lemma check_watch_paused:
  "db_is_paused (db (state m)) chat_id \<Longrightarrow> check_watch py w (chat_id, c, l) m = Inr m"
  by (simp add: check_watch_def)

lemma check_watch_failed:
  assumes "\<not> db_is_paused (db (state m)) chat_id"
    and "fetch_failed (fetch_token_info w chat_id c)"
  shows "check_watch py w (chat_id, c, l) m
           = Inr (alert_once (failure_alert py c (fetch_token_info w chat_id c)) m)"
  using assms
  by (cases "fetch_token_info w chat_id c" rule: fetch_failed.cases)
    (simp_all add: check_watch_def)

text \<open>A record that cannot be converted ends the pass: nothing is sent or written.\<close>

lemma check_watch_conversion_raises:
  assumes "\<not> db_is_paused (db (state m)) chat_id"
    and "fetch_token_info w chat_id c = Inr (Some info)" and "info \<noteq> []"
    and "from_api_response py info (clock w chat_id c) = Inl e"
  shows "check_watch py w (chat_id, c, l) m = Inl e"
proof -
  obtain x xs where info: "info = x # xs"
    using assms(3) by (cases info) auto
  show ?thesis
    using assms(1,2,4)
    unfolding info check_watch_def
    by simp
qed

lemma from_api_response_overflow:
  "map_of info ''sort_apr'' = Some (JInt n) \<Longrightarrow> float_of_int py n = None \<Longrightarrow>
   from_api_response py info now = Inl OverflowError"
  by (simp add: from_api_response_def sort_apr_percent_def dict_get_def Let_def)

lemma check_watch_fetched:
  assumes "\<not> db_is_paused (db (state m)) chat_id"
    and "fetch_token_info w chat_id c = Inr (Some info)" and "info \<noteq> []"
    and "from_api_response py info (clock w chat_id c) = Inr token_status"
  shows "check_watch py w (chat_id, c, l) m =
     (let old = map_of (coins_of (state m) chat_id) c
      in case status_changed py c old token_status (clock w chat_id c) of
           Inl e \<Rightarrow> Inl e
         | Inr changed \<Rightarrow>
             Inr (m\<lparr>state := snd (update_status (state m) chat_id c (to_string token_status)),
                    any_success := True,
                    written := written m
                      @ (if old \<noteq> Some (to_string token_status)
                         then [(chat_id, c, to_string token_status)] else []),
                    sent := sent m
                      @ (if old \<noteq> Some (to_string token_status) \<and> changed
                         then [(chat_id, Change (change_text py c token_status))] else [])\<rparr>))"
proof -
  obtain x xs where info: "info = x # xs"
    using assms(3) by (cases info) auto
  show ?thesis
    using assms(1,2,4)
    unfolding info check_watch_def
    by (auto simp: Let_def split_def update_status_wrote split: sum.splits)
qed

lemma py_eq_list_refl_aux: "(\<And>x. x \<in> set xs \<Longrightarrow> py_eq x x) \<Longrightarrow> py_eq_list xs xs"
  by (induction xs) auto

lemma py_eq_items_refl_aux:
  assumes "\<And>k x. (k, x) \<in> set d \<Longrightarrow> py_eq x x" and "set seen = fst ` set pre"
  shows "py_eq_items seen d (pre @ d)"
  using assms
proof (induction d arbitrary: seen pre)
  case Nil
  then show ?case by simp
next
  case (Cons p d)
  have vals: "py_eq x x" if "(k, x) \<in> set d" for k x
    using Cons.prems(1) [of k x] that by simp
  show ?case
  proof (cases "fst p \<in> set seen")
    case True
    have "py_eq_items seen d ((pre @ [p]) @ d)"
      using True Cons.prems(2) by (intro Cons.IH vals) auto
    then show ?thesis
      using True by simp
  next
    case False
    then have "map_of pre (fst p) = None"
      using Cons.prems(2) by (simp add: map_of_eq_None_iff)
    then have found: "map_of (pre @ p # d) (fst p) = Some (snd p)"
      by (cases p) (simp add: map_add_def)
    have "py_eq (snd p) (snd p)"
      using Cons.prems(1) [of "fst p" "snd p"] by simp
    moreover have "py_eq_items (fst p # seen) d ((pre @ [p]) @ d)"
      using Cons.prems(2) by (intro Cons.IH vals) auto
    ultimately show ?thesis
      using False found by simp
  qed
qed

lemma py_eq_refl: "py_eq x x"
proof (induction x)
  case (JList xs)
  then show ?case by (simp add: py_eq_list_refl_aux)
next
  case (JDict d)
  have "py_eq x x" if "(k, x) \<in> set d" for k x
    using JDict.IH [of "(k, x)" x] that by simp
  then have "py_eq_items [] d ([] @ d)"
    by (intro py_eq_items_refl_aux) auto
  then show ?case by simp
qed simp_all

lemma py_eq_list_refl: "py_eq_list xs xs"
  by (simp add: py_eq_list_refl_aux py_eq_refl)

lemma status_changed_absent:
  "\<not> truthy old \<Longrightarrow> status_changed py c old ts now = Inr True"
  by (simp add: status_changed_def)

lemma status_changed_status_text:
  "status_changed py c (Some (Status_text fl apr t)) ts now
     = Inr (\<not> py_eq_list fl (fixed_list ts))"
  by (simp add: status_changed_def)

lemma status_changed_plain_text:
  "s \<noteq> [] \<Longrightarrow> status_changed py c (Some (Plain_text s)) ts now = Inl JSONDecodeError"
  by (simp add: status_changed_def)

text \<open>
  A poll that fetched a record and built its status sends the change notification
  exactly when the status text differs from the stored one and the fixed_list differs
  from the stored one's, or no status was stored; this is for a stored status that is
  missing or is read.
\<close>

lemma change_notification_iff:
  assumes "\<not> db_is_paused (db (state m)) chat_id"
    and "fetch_token_info w chat_id c = Inr (Some info)" and "info \<noteq> []"
    and "from_api_response py info (clock w chat_id c) = Inr ts"
    and "map_of (coins_of (state m) chat_id) c = old"
    and "\<not> truthy old \<or> old = Some (Status_text fl apr t)"
  shows "\<exists>m'. check_watch py w (chat_id, c, l) m = Inr m' \<and>
           sent m' = sent m
             @ (if old \<noteq> Some (to_string ts) \<and>
                   (\<not> truthy old \<or> \<not> py_eq_list fl (fixed_list ts))
                then [(chat_id, Change (change_text py c ts))]
                else [])"
proof (cases "truthy old")
  case False
  then show ?thesis
    using assms(5) check_watch_fetched [OF assms(1-4), of l]
    by (simp add: Let_def status_changed_absent)
next
  case True
  then have "old = Some (Status_text fl apr t)"
    using assms(6) by simp
  then show ?thesis
    using assms(5) check_watch_fetched [OF assms(1-4), of l]
    by (simp add: Let_def status_changed_status_text)
qed

lemmas monitor_defs =
  check_once_def check_watch_def recover_def alert_once_def send_alert_def start_def
  get_watches_def status_changed_def update_status_def db_update_watch_status_def
  watch_put_def coins_of_def db_is_paused_def from_api_response_def to_string_def
  extract_sale_statuses_def sale_statuses_of_def sort_apr_percent_def dict_get_def
  asset_str_def List.map_filter_def

text \<open>
  C2. In a pass, a watch whose fetch succeeds gets a change notification if and only if
  \<open>update_status\<close> wrote (the new status text differs from the stored one) and the
  fixed_list differs from that of the stored status, a missing stored status counting
  as a difference. Where the stored status is read, this holds
  (\<open>change_notification_iff\<close>). For a watch stored as \<^verbatim>\<open>"no_data"\<close>, which is how
  \<^verbatim>\<open>_handle_text\<close> subscribes to a coin it could not fetch, the code does otherwise:
  the status text differs and there is no prior status, yet no notification is sent and
  nothing is written; \<open>from_string\<close> raises \<open>JSONDecodeError\<close> and the pass ends there.
\<close>

theorem first_data_after_no_data_is_not_notified:
  "(let py = \<lparr>float_of_str = (\<lambda>s. None), float_of_int = (\<lambda>i. Some (real_of_int i)),
              py_str = (\<lambda>v. []), upper = (\<lambda>s. if s = ''algo'' then ''ALGO'' else s),
              lower = (\<lambda>s. if s = ''ALGO'' then ''algo'' else s)\<rparr>;
        st = \<lparr>db = \<lparr>subscribers_table = [(''7'', False)],
                    watches_table = [((''7'', ''algo''), Plain_text ''no_data'')]\<rparr>,
              global_failures = 0, global_alerted = False, coin_failures = [],
              coin_alerted = [], subscribers = [''7''],
              watch = [(''7'', [(''algo'', Plain_text ''no_data'')])]\<rparr>;
        item = [(''asset'', JStr ''ALGO''),
                (''fixed_list'', JList [JDict [(''sale_status'', JInt 1)]])];
        w = \<lparr>fetch_token_info = (\<lambda>chat_id c. Inr (Some item)),
             clock = (\<lambda>chat_id c. 100)\<rparr>
    in from_api_response py item 100
         = Inr \<lparr>coin = ''algo'', fixed_list = [JInt 1], sort_apr = None, timestamp = 100\<rparr> \<and>
       check_watch py w (''7'', ''algo'', Plain_text ''no_data'') (start st)
         = Inl JSONDecodeError \<and>
       check_once py w (start st)
         = (Some JSONDecodeError,
            \<lparr>state = st, any_success = False, sent = [], written = []\<rparr>))"
  by (simp add: monitor_defs Let_def)

lemma from_api_response_built:
  assumes "from_api_response py info now = Inr ts"
  shows "\<exists>apr. sort_apr_percent py info = Inr apr \<and>
           ts = \<lparr>coin = lower py (lower py (asset_str py info)),
                 fixed_list = fst (extract_sale_statuses info), sort_apr = apr,
                 timestamp = now\<rparr>"
  using assms by (auto simp: from_api_response_def Let_def split: sum.splits)

text \<open>
  C3 (as amended). Take a watch of a chat that is not paused, whose stored status is
  missing or is a serialised status, and let the monitor poll it twice in a row, both
  polls fetching the same record, one from which a status can be built. The first poll
  sends one change notification when no status was stored or the stored fixed_list
  differs from the record's, and none otherwise; the second poll sends none. The first
  poll writes the status when its text differs from the stored one; the second poll
  writes again when its clock reading differs from that of the first, since the text
  carries the time of the observation.
\<close>

theorem identical_record_twice:
  fixes py wa wb chat_id c info m tsa tsb
  defines "old \<equiv> map_of (coins_of (state m) chat_id) c"
  assumes active: "\<not> db_is_paused (db (state m)) chat_id"
    and fetcha: "fetch_token_info wa chat_id c = Inr (Some info)"
    and fetchb: "fetch_token_info wb chat_id c = Inr (Some info)"
    and nonempty: "info \<noteq> []"
    and builta: "from_api_response py info (clock wa chat_id c) = Inr tsa"
    and builtb: "from_api_response py info (clock wb chat_id c) = Inr tsb"
    and stored_status: "\<not> truthy old \<or> old = Some (Status_text fl apr t)"
  shows "\<exists>m1 m2.
           check_watch py wa (chat_id, c, la) m = Inr m1 \<and>
           check_watch py wb (chat_id, c, lb) m1 = Inr m2 \<and>
           sent m1 = sent m
             @ (if \<not> truthy old \<or> \<not> py_eq_list fl (fixed_list tsa)
                then [(chat_id, Change (change_text py c tsa))] else []) \<and>
           sent m2 = sent m1 \<and>
           written m1 = written m
             @ (if old \<noteq> Some (to_string tsa) then [(chat_id, c, to_string tsa)] else []) \<and>
           written m2 = written m1
             @ (if clock wb chat_id c \<noteq> clock wa chat_id c
                then [(chat_id, c, to_string tsb)] else [])"
proof -
  obtain changed where ch: "status_changed py c old tsa (clock wa chat_id c) = Inr changed"
    and changed: "changed \<longleftrightarrow> \<not> truthy old \<or> \<not> py_eq_list fl (fixed_list tsa)"
    using stored_status by (auto simp: status_changed_absent status_changed_status_text)
  define m1 where "m1 = m\<lparr>state := snd (update_status (state m) chat_id c (to_string tsa)),
                    any_success := True,
                    written := written m
                      @ (if old \<noteq> Some (to_string tsa)
                         then [(chat_id, c, to_string tsa)] else []),
                    sent := sent m
                      @ (if old \<noteq> Some (to_string tsa) \<and> changed
                         then [(chat_id, Change (change_text py c tsa))] else [])\<rparr>"
  have first: "check_watch py wa (chat_id, c, la) m = Inr m1"
    using check_watch_fetched [OF active fetcha nonempty builta, of la] ch
    by (simp add: Let_def m1_def old_def)
  have same: "old = Some (to_string tsa) \<Longrightarrow> \<not> changed"
    using changed stored_status by (auto simp: to_string_def py_eq_list_refl)
  have sent1: "sent m1 = sent m
             @ (if \<not> truthy old \<or> \<not> py_eq_list fl (fixed_list tsa)
                then [(chat_id, Change (change_text py c tsa))] else [])"
    using same changed by (auto simp: m1_def)
  have np: "\<not> db_is_paused (db (state m1)) chat_id"
    using active by (simp add: m1_def update_status_paused)
  have stored: "map_of (coins_of (state m1) chat_id) c = Some (to_string tsa)"
    by (simp add: m1_def update_status_stored)
  obtain rate where tsa: "tsa = \<lparr>coin = lower py (lower py (asset_str py info)),
                 fixed_list = fst (extract_sale_statuses info), sort_apr = rate,
                 timestamp = clock wa chat_id c\<rparr>"
    and tsb: "tsb = \<lparr>coin = lower py (lower py (asset_str py info)),
                 fixed_list = fst (extract_sale_statuses info), sort_apr = rate,
                 timestamp = clock wb chat_id c\<rparr>"
    using from_api_response_built [OF builta] from_api_response_built [OF builtb] by auto
  have fl: "fixed_list tsb = fixed_list tsa"
    by (simp add: tsa tsb)
  have ch2: "status_changed py c (Some (to_string tsa)) tsb (clock wb chat_id c) = Inr False"
    by (simp add: to_string_def status_changed_status_text fl py_eq_list_refl)
  have differ: "Some (to_string tsa) \<noteq> Some (to_string tsb)
                  \<longleftrightarrow> clock wb chat_id c \<noteq> clock wa chat_id c"
    by (auto simp: to_string_def tsa tsb)
  define m2 where "m2 = m1\<lparr>state := snd (update_status (state m1) chat_id c (to_string tsb)),
                    any_success := True,
                    written := written m1
                      @ (if clock wb chat_id c \<noteq> clock wa chat_id c
                         then [(chat_id, c, to_string tsb)] else [])\<rparr>"
  have second: "check_watch py wb (chat_id, c, lb) m1 = Inr m2"
    using check_watch_fetched [OF np fetchb nonempty builtb, of lb] ch2 differ
    by (simp add: Let_def stored m2_def)
  show ?thesis
    using first second sent1
    by (intro exI [of _ m1] exI [of _ m2]) (simp add: m2_def, simp add: m1_def)
qed

theorem identical_record_twice_witness:
  "(let py = \<lparr>float_of_str = (\<lambda>s. None), float_of_int = (\<lambda>i. Some (real_of_int i)),
              py_str = (\<lambda>v. []), upper = (\<lambda>s. if s = ''algo'' then ''ALGO'' else s),
              lower = (\<lambda>s. if s = ''ALGO'' then ''algo'' else s)\<rparr>;
        old = Status_text [JInt 2] None (Some 5);
        st = \<lparr>db = \<lparr>subscribers_table = [(''7'', False)],
                    watches_table = [((''7'', ''algo''), old)]\<rparr>,
              global_failures = 0, global_alerted = False, coin_failures = [],
              coin_alerted = [], subscribers = [''7''],
              watch = [(''7'', [(''algo'', old)])]\<rparr>;
        item = [(''asset'', JStr ''ALGO''),
                (''fixed_list'', JList [JDict [(''sale_status'', JInt 1)]])];
        w = (\<lambda>t. \<lparr>fetch_token_info = (\<lambda>chat_id c. Inr (Some item)),
                    clock = (\<lambda>chat_id c. t)\<rparr>)
    in \<exists>ma mb.
         check_watch py (w 100) (''7'', ''algo'', old) (start st) = Inr ma \<and>
         check_watch py (w 160) (''7'', ''algo'', old) ma = Inr mb \<and>
         sent ma = [(''7'', Change (change_text py ''algo''
                      \<lparr>coin = ''algo'', fixed_list = [JInt 1], sort_apr = None,
                       timestamp = 100\<rparr>))] \<and>
         sent mb = sent ma \<and>
         written ma = [(''7'', ''algo'', Status_text [JInt 1] None (Some 100))] \<and>
         written mb = [(''7'', ''algo'', Status_text [JInt 1] None (Some 100)),
                       (''7'', ''algo'', Status_text [JInt 1] None (Some 160))])"
proof -
  define py where "py = \<lparr>float_of_str = (\<lambda>s :: string. None :: real option),
              float_of_int = (\<lambda>i. Some (real_of_int i)),
              py_str = (\<lambda>v :: json. [] :: string),
              upper = (\<lambda>s. if s = ''algo'' then ''ALGO'' else s),
              lower = (\<lambda>s. if s = ''ALGO'' then ''algo'' else s)\<rparr>"
  define old where "old = Status_text [JInt 2] None (Some 5)"
  define st where "st = \<lparr>db = \<lparr>subscribers_table = [(''7'', False)],
                    watches_table = [((''7'', ''algo''), old)]\<rparr>,
              global_failures = 0, global_alerted = False, coin_failures = [],
              coin_alerted = [], subscribers = [''7''],
              watch = [(''7'', [(''algo'', old)])]\<rparr>"
  define item where "item = [(''asset'', JStr ''ALGO''),
                (''fixed_list'', JList [JDict [(''sale_status'', JInt 1)]])]"
  define w where "w = (\<lambda>t::nat. \<lparr>fetch_token_info = (\<lambda>chat_id c :: string. Inr (Some item)),
                    clock = (\<lambda>chat_id c :: string. t)\<rparr>)"
  have ts: "from_api_response py item t
              = Inr \<lparr>coin = ''algo'', fixed_list = [JInt 1], sort_apr = None, timestamp = t\<rparr>"
    for t
    by (simp add: from_api_response_def item_def py_def asset_str_def dict_get_def
        extract_sale_statuses_def sale_statuses_of_def List.map_filter_def
        sort_apr_percent_def)
  have h1: "\<not> db_is_paused (db (state (start st))) ''7''"
    by (simp add: start_def st_def db_is_paused_def)
  have h2: "fetch_token_info (w 100) ''7'' ''algo'' = Inr (Some item)"
    and h3: "fetch_token_info (w 160) ''7'' ''algo'' = Inr (Some item)"
    by (simp_all add: w_def)
  have h4: "item \<noteq> []"
    by (simp add: item_def)
  have clocks: "clock (w 100) ''7'' ''algo'' = 100" "clock (w 160) ''7'' ''algo'' = 160"
    by (simp_all add: w_def)
  have h5: "from_api_response py item (clock (w 100) ''7'' ''algo'')
              = Inr \<lparr>coin = ''algo'', fixed_list = [JInt 1], sort_apr = None, timestamp = 100\<rparr>"
    and h6: "from_api_response py item (clock (w 160) ''7'' ''algo'')
              = Inr \<lparr>coin = ''algo'', fixed_list = [JInt 1], sort_apr = None, timestamp = 160\<rparr>"
    by (simp_all add: clocks ts)
  have stored: "map_of (coins_of (state (start st)) ''7'') ''algo''
                  = Some (Status_text [JInt 2] None (Some 5))"
    by (simp add: start_def st_def coins_of_def old_def)
  then have h7: "\<not> truthy (map_of (coins_of (state (start st)) ''7'') ''algo'') \<or>
      map_of (coins_of (state (start st)) ''7'') ''algo''
        = Some (Status_text [JInt 2] None (Some 5))"
    by simp
  obtain ma mb where
    "check_watch py (w 100) (''7'', ''algo'', old) (start st) = Inr ma"
    "check_watch py (w 160) (''7'', ''algo'', old) ma = Inr mb"
    "sent ma = sent (start st)
       @ [(''7'', Change (change_text py ''algo''
            \<lparr>coin = ''algo'', fixed_list = [JInt 1], sort_apr = None, timestamp = 100\<rparr>))]"
    "sent mb = sent ma"
    "written ma = written (start st)
       @ [(''7'', ''algo'', Status_text [JInt 1] None (Some 100))]"
    "written mb = written ma @ [(''7'', ''algo'', Status_text [JInt 1] None (Some 160))]"
    using identical_record_twice [OF h1 h2 h3 h4 h5 h6 h7, of old old]
    by (auto simp: clocks stored to_string_def)
  then have "\<exists>ma mb.
         check_watch py (w 100) (''7'', ''algo'', old) (start st) = Inr ma \<and>
         check_watch py (w 160) (''7'', ''algo'', old) ma = Inr mb \<and>
         sent ma = [(''7'', Change (change_text py ''algo''
                      \<lparr>coin = ''algo'', fixed_list = [JInt 1], sort_apr = None,
                       timestamp = 100\<rparr>))] \<and>
         sent mb = sent ma \<and>
         written ma = [(''7'', ''algo'', Status_text [JInt 1] None (Some 100))] \<and>
         written mb = [(''7'', ''algo'', Status_text [JInt 1] None (Some 100)),
                       (''7'', ''algo'', Status_text [JInt 1] None (Some 160))]"
    by (intro exI [of _ ma] exI [of _ mb]) (simp add: start_def)
  then show ?thesis
    unfolding Let_def py_def old_def st_def item_def w_def .
qed

text \<open>
  C3 as stated fails: the same record in two passes, at times 100 and 160, over a stored
  status with the same fixed_list, gives a status write in each pass, two in all, and
  no notification.
\<close>

theorem second_identical_pass_writes_again:
  "(let py = \<lparr>float_of_str = (\<lambda>s. None), float_of_int = (\<lambda>i. Some (real_of_int i)),
              py_str = (\<lambda>v. []), upper = (\<lambda>s. if s = ''algo'' then ''ALGO'' else s),
              lower = (\<lambda>s. if s = ''ALGO'' then ''algo'' else s)\<rparr>;
        st = \<lparr>db = \<lparr>subscribers_table = [(''7'', False)],
                    watches_table = [((''7'', ''algo''), Status_text [JInt 1] None (Some 5))]\<rparr>,
              global_failures = 0, global_alerted = False, coin_failures = [],
              coin_alerted = [], subscribers = [''7''],
              watch = [(''7'', [(''algo'', Status_text [JInt 1] None (Some 5))])]\<rparr>;
        item = [(''asset'', JStr ''ALGO''),
                (''fixed_list'', JList [JDict [(''sale_status'', JInt 1)]])];
        w = (\<lambda>t. \<lparr>fetch_token_info = (\<lambda>chat_id c. Inr (Some item)),
                    clock = (\<lambda>chat_id c. t)\<rparr>)
    in monitor_loop py [w 100] (start st)
         = (None,
            \<lparr>state = st\<lparr>db := \<lparr>subscribers_table = [(''7'', False)],
                    watches_table = [((''7'', ''algo''), Status_text [JInt 1] None (Some 100))]\<rparr>,
                 watch := [(''7'', [(''algo'', Status_text [JInt 1] None (Some 100))])]\<rparr>,
             any_success = True, sent = [],
             written = [(''7'', ''algo'', Status_text [JInt 1] None (Some 100))]\<rparr>) \<and>
       monitor_loop py [w 100, w 160] (start st)
         = (None,
            \<lparr>state = st\<lparr>db := \<lparr>subscribers_table = [(''7'', False)],
                    watches_table = [((''7'', ''algo''), Status_text [JInt 1] None (Some 160))]\<rparr>,
                 watch := [(''7'', [(''algo'', Status_text [JInt 1] None (Some 160))])]\<rparr>,
             any_success = True, sent = [],
             written = [(''7'', ''algo'', Status_text [JInt 1] None (Some 100)),
                        (''7'', ''algo'', Status_text [JInt 1] None (Some 160))]\<rparr>))"
  by (simp add: monitor_defs Let_def)

section \<open>Properties of the alert state machine\<close>

lemma alert_once_alerted: "global_alerted (state m) \<Longrightarrow> alert_once a m = m"
  by (simp add: alert_once_def)

lemma alert_once_fresh:
  "\<not> global_alerted (state m) \<Longrightarrow>
   alert_once a m = m\<lparr>sent := sent m @ broadcast (state m) a,
                      state := (state m)\<lparr>global_alerted := True\<rparr>\<rparr>"
  by (simp add: alert_once_def send_alert_def broadcast_def Let_def)

lemma alert_once_state:
  "state (alert_once a m) = (state m)\<lparr>global_alerted := True\<rparr>"
  by (cases "global_alerted (state m)") (simp_all add: alert_once_alerted alert_once_fresh)

lemma alert_once_twice: "alert_once b (alert_once a m) = alert_once a m"
  by (simp add: alert_once_alerted alert_once_state)

lemma polled_alert_once [simp]: "polled (state (alert_once a m)) = polled (state m)"
  by (simp add: polled_def alert_once_state fun_eq_iff)

lemma polled_global_alerted [simp]: "polled (st\<lparr>global_alerted := b\<rparr>) = polled st"
  by (simp add: polled_def fun_eq_iff)

lemma check_watch_not_polled:
  "\<not> polled (state m) entry \<Longrightarrow> check_watch py w entry m = Inr m"
  by (cases entry) (simp add: polled_def check_watch_paused)

lemma check_watch_poll_fails:
  "polled (state m) entry \<Longrightarrow> poll_fails w entry \<Longrightarrow>
   check_watch py w entry m = Inr (alert_once (poll_alert py w entry) m)"
  by (cases entry) (simp add: polled_def poll_fails_def poll_alert_def check_watch_failed)

lemma check_watches_failing:
  assumes "\<forall>entry\<in>set entries. polled (state m) entry \<longrightarrow> poll_fails w entry"
  shows "check_watches py w entries m =
           (None, case List.find (polled (state m)) entries of
                    None \<Rightarrow> m
                  | Some entry \<Rightarrow> alert_once (poll_alert py w entry) m)"
  using assms
proof (induction entries arbitrary: m)
  case Nil
  then show ?case by simp
next
  case (Cons entry entries)
  show ?case
  proof (cases "polled (state m) entry")
    case False
    then show ?thesis
      using Cons by (simp add: check_watch_not_polled)
  next
    case True
    let ?m = "alert_once (poll_alert py w entry) m"
    have "check_watches py w entries ?m =
           (None, case List.find (polled (state ?m)) entries of
                    None \<Rightarrow> ?m
                  | Some e \<Rightarrow> alert_once (poll_alert py w e) ?m)"
      using Cons.prems by (intro Cons.IH) simp
    then have "check_watches py w entries ?m = (None, ?m)"
      by (simp add: alert_once_twice split: option.splits)
    then show ?thesis
      using True Cons.prems by (simp add: check_watch_poll_fails)
  qed
qed

lemma recover_no_success: "\<not> any_success m \<Longrightarrow> recover m = m"
  by (simp add: recover_def)

lemma alert_once_any_success [simp]: "any_success (alert_once a m) = any_success m"
  by (simp add: alert_once_def send_alert_def Let_def)

lemma failing_pass:
  assumes "\<forall>entry\<in>set (get_watches (state m)). polled (state m) entry \<longrightarrow> poll_fails w entry"
  shows "check_once py w m =
           (None, case List.find (polled (state m)) (get_watches (state m)) of
                    None \<Rightarrow> m\<lparr>any_success := False\<rparr>
                  | Some entry \<Rightarrow> alert_once (poll_alert py w entry) (m\<lparr>any_success := False\<rparr>))"
proof -
  let ?m = "m\<lparr>any_success := False\<rparr>"
  have "check_watches py w (get_watches (state m)) ?m =
           (None, case List.find (polled (state ?m)) (get_watches (state m)) of
                    None \<Rightarrow> ?m
                  | Some entry \<Rightarrow> alert_once (poll_alert py w entry) ?m)"
    using assms by (intro check_watches_failing) simp
  then show ?thesis
    by (simp add: check_once_def recover_no_success split: option.splits)
qed

lemma quiet_passes:
  assumes "\<forall>w\<in>set ws. \<forall>entry\<in>set (get_watches (state m)).
             polled (state m) entry \<longrightarrow> poll_fails w entry"
    and "global_alerted (state m) \<or> List.find (polled (state m)) (get_watches (state m)) = None"
    and "\<not> any_success m"
  shows "monitor_loop py ws m = (None, m)"
  using assms
proof (induction ws)
  case Nil
  then show ?case by simp
next
  case (Cons w ws)
  have "check_once py w m = (None, m)"
    using Cons.prems failing_pass [of m w py]
    by (auto simp: alert_once_alerted split: option.splits)
  then show ?case
    using Cons by simp
qed

text \<open>
  Over any number of passes in which every poll fails, the subscribers get the alert of
  the first failed poll once, if \<open>global_alerted\<close> was false, and nothing else is sent or
  written.
\<close>

lemma failing_passes_alert_once:
  assumes "\<forall>w\<in>set ws. \<forall>entry\<in>set (get_watches (state m)).
             polled (state m) entry \<longrightarrow> poll_fails w entry"
    and "ws \<noteq> []"
  shows "\<exists>m'. monitor_loop py ws m = (None, m') \<and>
           sent m' = sent m
             @ (if global_alerted (state m) then []
                else case List.find (polled (state m)) (get_watches (state m)) of
                       None \<Rightarrow> []
                     | Some entry \<Rightarrow> broadcast (state m) (poll_alert py (hd ws) entry)) \<and>
           global_alerted (state m') =
             (global_alerted (state m) \<or>
              List.find (polled (state m)) (get_watches (state m)) \<noteq> None) \<and>
           written m' = written m"
proof -
  obtain w ws' where ws: "ws = w # ws'"
    using assms(2) by (cases ws) auto
  let ?m0 = "m\<lparr>any_success := False\<rparr>"
  define m1 where "m1 = (case List.find (polled (state m)) (get_watches (state m)) of
                    None \<Rightarrow> ?m0
                  | Some entry \<Rightarrow> alert_once (poll_alert py w entry) ?m0)"
  have first: "check_once py w m = (None, m1)"
    using assms(1) failing_pass [of m w py] by (simp add: ws m1_def)
  have st1: "state m1 = state m \<or> state m1 = (state m)\<lparr>global_alerted := True\<rparr>"
    by (simp add: m1_def alert_once_state split: option.splits)
  then have same: "get_watches (state m1) = get_watches (state m)"
    "polled (state m1) = polled (state m)"
    by (auto simp: get_watches_def polled_def fun_eq_iff)
  have quiet: "global_alerted (state m1) \<or>
      List.find (polled (state m1)) (get_watches (state m1)) = None"
    by (simp add: same) (simp add: m1_def alert_once_state split: option.splits)
  have "\<not> any_success m1"
    by (simp add: m1_def split: option.splits)
  then have rest: "monitor_loop py ws' m1 = (None, m1)"
    using assms(1) quiet by (intro quiet_passes) (simp_all add: ws same)
  have "sent m1 = sent m
             @ (if global_alerted (state m) then []
                else case List.find (polled (state m)) (get_watches (state m)) of
                       None \<Rightarrow> []
                     | Some entry \<Rightarrow> broadcast (state m) (poll_alert py w entry))"
    by (cases "global_alerted (state m)")
      (simp_all add: m1_def alert_once_alerted alert_once_fresh split: option.splits)
  moreover have "global_alerted (state m1) =
             (global_alerted (state m) \<or>
              List.find (polled (state m)) (get_watches (state m)) \<noteq> None)"
    by (auto simp: m1_def alert_once_state split: option.splits)
  moreover have "written m1 = written m"
    by (simp add: m1_def alert_once_def send_alert_def Let_def split: option.splits)
  ultimately show ?thesis
    using first rest unfolding ws by (simp split: option.splits)
qed


lemma filter_is_alert_broadcast [simp]: "filter is_alert (broadcast st a) = broadcast st a"
  by (simp add: broadcast_def filter_map comp_def)

lemma broadcast_subscribers:
  "subscribers st' = subscribers st \<Longrightarrow> broadcast st' a = broadcast st a"
  by (simp add: broadcast_def)

lemma check_watch_poll_succeeds:
  assumes "polled (state m) entry" and "\<not> poll_fails w entry"
    and "check_watch py w entry m = Inr m1"
  shows "any_success m1"
    and "global_alerted (state m1) = global_alerted (state m)"
    and "subscribers (state m1) = subscribers (state m)"
    and "polled (state m1) = polled (state m)"
    and "filter is_alert (sent m1) = filter is_alert (sent m)"
proof -
  obtain chat_id c l where entry: "entry = (chat_id, c, l)"
    by (cases entry) auto
  obtain info where info: "fetch_token_info w chat_id c = Inr (Some info)" "info \<noteq> []"
    using assms(2)
    by (cases "fetch_token_info w chat_id c" rule: fetch_failed.cases)
      (auto simp: poll_fails_def entry)
  have np: "\<not> db_is_paused (db (state m)) chat_id"
    using assms(1) by (simp add: polled_def entry)
  let ?old = "map_of (coins_of (state m) chat_id) c"
  obtain ts where ts: "from_api_response py info (clock w chat_id c) = Inr ts"
    using assms(3) check_watch_conversion_raises [OF np info, of py _ l]
    by (cases "from_api_response py info (clock w chat_id c)") (auto simp: entry)
  obtain changed where
    m1: "m1 = m\<lparr>state := snd (update_status (state m) chat_id c (to_string ts)),
                    any_success := True,
                    written := written m
                      @ (if ?old \<noteq> Some (to_string ts)
                         then [(chat_id, c, to_string ts)] else []),
                    sent := sent m
                      @ (if ?old \<noteq> Some (to_string ts) \<and> changed
                         then [(chat_id, Change (change_text py c ts))] else [])\<rparr>"
    using assms(3) check_watch_fetched [OF np info ts, of l]
    by (auto simp: entry Let_def split: sum.splits)
  show "any_success m1" "global_alerted (state m1) = global_alerted (state m)"
    "subscribers (state m1) = subscribers (state m)"
    "filter is_alert (sent m1) = filter is_alert (sent m)"
    by (simp_all add: m1 update_status_keeps)
  show "polled (state m1) = polled (state m)"
    by (simp add: m1 polled_def update_status_paused fun_eq_iff)
qed

lemma check_watch_step:
  assumes "check_watch py w entry m = Inr m1"
  shows "any_success m1 = (any_success m \<or> (polled (state m) entry \<and> \<not> poll_fails w entry))"
    and "global_alerted (state m1) =
           (global_alerted (state m) \<or> (polled (state m) entry \<and> poll_fails w entry))"
    and "filter is_alert (sent m1) = filter is_alert (sent m)
           @ (if \<not> global_alerted (state m) \<and> polled (state m) entry \<and> poll_fails w entry
              then broadcast (state m) (poll_alert py w entry) else [])"
    and "subscribers (state m1) = subscribers (state m)"
    and "polled (state m1) = polled (state m)"
proof -
  consider (paused) "\<not> polled (state m) entry"
    | (fails) "polled (state m) entry" "poll_fails w entry"
    | (succeeds) "polled (state m) entry" "\<not> poll_fails w entry"
    by blast
  then have "any_success m1 = (any_success m \<or> (polled (state m) entry \<and> \<not> poll_fails w entry)) \<and>
    global_alerted (state m1) =
           (global_alerted (state m) \<or> (polled (state m) entry \<and> poll_fails w entry)) \<and>
    filter is_alert (sent m1) = filter is_alert (sent m)
           @ (if \<not> global_alerted (state m) \<and> polled (state m) entry \<and> poll_fails w entry
              then broadcast (state m) (poll_alert py w entry) else []) \<and>
    subscribers (state m1) = subscribers (state m) \<and>
    polled (state m1) = polled (state m)"
  proof cases
    case paused
    then show ?thesis
      using assms by (simp add: check_watch_not_polled)
  next
    case fails
    then have m1: "m1 = alert_once (poll_alert py w entry) m"
      using assms by (simp add: check_watch_poll_fails)
    show ?thesis
      using fails
      by (cases "global_alerted (state m)")
        (simp_all add: m1 alert_once_state, simp_all add: alert_once_alerted alert_once_fresh)
  next
    case succeeds
    then show ?thesis
      using check_watch_poll_succeeds [OF succeeds assms] by simp
  qed
  then show "any_success m1 = (any_success m \<or> (polled (state m) entry \<and> \<not> poll_fails w entry))"
    and "global_alerted (state m1) =
           (global_alerted (state m) \<or> (polled (state m) entry \<and> poll_fails w entry))"
    and "filter is_alert (sent m1) = filter is_alert (sent m)
           @ (if \<not> global_alerted (state m) \<and> polled (state m) entry \<and> poll_fails w entry
              then broadcast (state m) (poll_alert py w entry) else [])"
    and "subscribers (state m1) = subscribers (state m)"
    and "polled (state m1) = polled (state m)"
    by simp_all
qed

lemma check_watches_subscribers:
  "check_watches py w entries m = (None, m') \<Longrightarrow>
   subscribers (state m') = subscribers (state m) \<and> polled (state m') = polled (state m)"
proof (induction entries arbitrary: m)
  case Nil
  then show ?case by simp
next
  case (Cons entry entries)
  obtain m1 where step: "check_watch py w entry m = Inr m1"
    and rest: "check_watches py w entries m1 = (None, m')"
    using Cons.prems by (auto split: sum.splits)
  show ?case
    using Cons.IH [OF rest] check_watch_step(4,5) [OF step] by simp
qed

lemma check_watches_any_success:
  "check_watches py w entries m = (None, m') \<Longrightarrow>
   any_success m' =
     (any_success m \<or> (\<exists>e\<in>set entries. polled (state m) e \<and> \<not> poll_fails w e))"
proof (induction entries arbitrary: m)
  case Nil
  then show ?case by simp
next
  case (Cons entry entries)
  obtain m1 where step: "check_watch py w entry m = Inr m1"
    and rest: "check_watches py w entries m1 = (None, m')"
    using Cons.prems by (auto split: sum.splits)
  have "any_success m' =
     (any_success m1 \<or> (\<exists>e\<in>set entries. polled (state m) e \<and> \<not> poll_fails w e))"
    using Cons.IH [OF rest] check_watch_step(5) [OF step] by simp
  then show ?case
    using check_watch_step(1) [OF step] by auto
qed

lemma check_watches_global_alerted:
  "check_watches py w entries m = (None, m') \<Longrightarrow>
   global_alerted (state m') =
     (global_alerted (state m) \<or> (\<exists>e\<in>set entries. polled (state m) e \<and> poll_fails w e))"
proof (induction entries arbitrary: m)
  case Nil
  then show ?case by simp
next
  case (Cons entry entries)
  obtain m1 where step: "check_watch py w entry m = Inr m1"
    and rest: "check_watches py w entries m1 = (None, m')"
    using Cons.prems by (auto split: sum.splits)
  have "global_alerted (state m') =
     (global_alerted (state m1) \<or> (\<exists>e\<in>set entries. polled (state m) e \<and> poll_fails w e))"
    using Cons.IH [OF rest] check_watch_step(5) [OF step] by simp
  then show ?case
    using check_watch_step(2) [OF step] by auto
qed

lemma check_watches_alerted_sends_no_alert:
  "check_watches py w entries m = (None, m') \<Longrightarrow> global_alerted (state m) \<Longrightarrow>
   filter is_alert (sent m') = filter is_alert (sent m)"
proof (induction entries arbitrary: m)
  case Nil
  then show ?case by simp
next
  case (Cons entry entries)
  obtain m1 where step: "check_watch py w entry m = Inr m1"
    and rest: "check_watches py w entries m1 = (None, m')"
    using Cons.prems(1) by (auto split: sum.splits)
  have "global_alerted (state m1)"
    using check_watch_step(2) [OF step] Cons.prems(2) by simp
  then have "filter is_alert (sent m') = filter is_alert (sent m1)"
    using Cons.IH [OF rest] by simp
  then show ?case
    using check_watch_step(3) [OF step] Cons.prems(2) by simp
qed

lemma check_watches_first_alert:
  "check_watches py w entries m = (None, m') \<Longrightarrow> \<not> global_alerted (state m) \<Longrightarrow>
   filter is_alert (sent m') = filter is_alert (sent m)
     @ (case List.find (\<lambda>e. polled (state m) e \<and> poll_fails w e) entries of
          None \<Rightarrow> []
        | Some e \<Rightarrow> broadcast (state m) (poll_alert py w e))"
proof (induction entries arbitrary: m)
  case Nil
  then show ?case by simp
next
  case (Cons entry entries)
  obtain m1 where step: "check_watch py w entry m = Inr m1"
    and rest: "check_watches py w entries m1 = (None, m')"
    using Cons.prems(1) by (auto split: sum.splits)
  show ?case
  proof (cases "polled (state m) entry \<and> poll_fails w entry")
    case True
    then have "global_alerted (state m1)"
      using check_watch_step(2) [OF step] by simp
    then have "filter is_alert (sent m') = filter is_alert (sent m1)"
      using check_watches_alerted_sends_no_alert [OF rest] by simp
    then show ?thesis
      using check_watch_step(3) [OF step] True Cons.prems(2) by simp
  next
    case False
    then have na: "\<not> global_alerted (state m1)"
      using check_watch_step(2) [OF step] Cons.prems(2) by auto
    have same: "polled (state m1) = polled (state m)"
      "broadcast (state m1) = broadcast (state m)"
      using check_watch_step(4,5) [OF step] by (simp_all add: broadcast_def fun_eq_iff)
    have "filter is_alert (sent m1) = filter is_alert (sent m)"
      using check_watch_step(3) [OF step] False by auto
    then show ?thesis
      using Cons.IH [OF rest na] False by (auto simp: same split: option.splits)
  qed
qed

text \<open>
  The alerts of a pass that runs to its end: the alert of its first failed poll, if
  \<open>global_alerted\<close> was false, then the recovery notice if some poll succeeded and
  \<open>global_alerted\<close> was true at the start or became true in the pass. With the recovery
  notice the failure state is reset.
\<close>

lemma pass_alerts:
  assumes "check_once py w m = (None, m')"
  defines "failing \<equiv> \<lambda>e. polled (state m) e \<and> poll_fails w e"
    and "succeeding \<equiv> \<lambda>e. polled (state m) e \<and> \<not> poll_fails w e"
  defines "degraded \<equiv> global_alerted (state m) \<or> (\<exists>e\<in>set (get_watches (state m)). failing e)"
    and "recovers \<equiv> \<exists>e\<in>set (get_watches (state m)). succeeding e"
  shows "filter is_alert (sent m') = filter is_alert (sent m)
           @ (if global_alerted (state m) then []
              else case List.find failing (get_watches (state m)) of
                     None \<Rightarrow> []
                   | Some e \<Rightarrow> broadcast (state m) (poll_alert py w e))
           @ (if degraded \<and> recovers then broadcast (state m) Restored else [])"
    and "global_alerted (state m') = (degraded \<and> \<not> recovers)"
    and "degraded \<and> recovers \<Longrightarrow>
           global_failures (state m') = 0 \<and> coin_failures (state m') = [] \<and>
           coin_alerted (state m') = []"
proof -
  let ?m0 = "m\<lparr>any_success := False\<rparr>"
  obtain m1 where loop: "check_watches py w (get_watches (state m)) ?m0 = (None, m1)"
    and m': "m' = recover m1"
    using assms(1) by (auto simp: check_once_def split: prod.splits option.splits)
  have st0: "state ?m0 = state m" "sent ?m0 = sent m" "any_success ?m0 = False"
    by simp_all
  have r1: "any_success m1 = recovers"
    using check_watches_any_success [OF loop]
    unfolding st0 recovers_def succeeding_def by simp
  have r2: "global_alerted (state m1) = degraded"
    using check_watches_global_alerted [OF loop]
    unfolding st0 degraded_def failing_def by simp
  have r3: "filter is_alert (sent m1) = filter is_alert (sent m)
           @ (if global_alerted (state m) then []
              else case List.find failing (get_watches (state m)) of
                     None \<Rightarrow> []
                   | Some e \<Rightarrow> broadcast (state m) (poll_alert py w e))"
  proof (cases "global_alerted (state m)")
    case True
    then show ?thesis
      using check_watches_alerted_sends_no_alert [OF loop] unfolding st0 by simp
  next
    case False
    then show ?thesis
      using check_watches_first_alert [OF loop] unfolding st0 failing_def by simp
  qed
  have r4: "subscribers (state m1) = subscribers (state m)"
    using check_watches_subscribers [OF loop] unfolding st0 by simp
  note r = r1 r2 r3 r4
  show "filter is_alert (sent m') = filter is_alert (sent m)
           @ (if global_alerted (state m) then []
              else case List.find failing (get_watches (state m)) of
                     None \<Rightarrow> []
                   | Some e \<Rightarrow> broadcast (state m) (poll_alert py w e))
           @ (if degraded \<and> recovers then broadcast (state m) Restored else [])"
    using r
    by (simp add: m' recover_def send_alert_def Let_def broadcast_def)
  show "global_alerted (state m') = (degraded \<and> \<not> recovers)"
    using r by (auto simp: m' recover_def send_alert_def Let_def)
  show "global_failures (state m') = 0 \<and> coin_failures (state m') = [] \<and>
           coin_alerted (state m') = []" if "degraded \<and> recovers"
    using r that by (simp add: m' recover_def send_alert_def Let_def)
qed

text \<open>
  C1. While polls fail, one alert goes to the subscribers, at the first failed poll
  seen with \<open>global_alerted\<close> false, and none while it stays true; the first pass after
  that with a successful poll sends one recovery notice and resets the failure state.
  The alert part holds (\<open>failing_passes_alert_once\<close>), and so does the recovery in a pass
  that runs to its end (\<open>pass_alerts\<close>). For a watch stored as \<^verbatim>\<open>"no_data"\<close> the code
  does otherwise: the first pass, whose fetch raises, sends the alert; the second pass
  fetches the coin, \<open>from_string\<close> raises \<open>JSONDecodeError\<close> on the stored text, and the
  pass and the monitor loop end with no recovery notice and \<open>global_alerted\<close> still true.
\<close>

theorem no_recovery_after_no_data_watch:
  "(let py = \<lparr>float_of_str = (\<lambda>s. None), float_of_int = (\<lambda>i. Some (real_of_int i)),
              py_str = (\<lambda>v. []), upper = (\<lambda>s. if s = ''algo'' then ''ALGO'' else s),
              lower = (\<lambda>s. if s = ''ALGO'' then ''algo'' else s)\<rparr>;
        st = \<lparr>db = \<lparr>subscribers_table = [(''7'', False)],
                    watches_table = [((''7'', ''algo''), Plain_text ''no_data'')]\<rparr>,
              global_failures = 0, global_alerted = False, coin_failures = [],
              coin_alerted = [], subscribers = [''7''],
              watch = [(''7'', [(''algo'', Plain_text ''no_data'')])]\<rparr>;
        item = [(''asset'', JStr ''ALGO''),
                (''fixed_list'', JList [JDict [(''sale_status'', JInt 1)]])];
        failing = \<lparr>fetch_token_info = (\<lambda>chat_id c. Inl URLError),
                   clock = (\<lambda>chat_id c. 40)\<rparr>;
        working = \<lparr>fetch_token_info = (\<lambda>chat_id c. Inr (Some item)),
                   clock = (\<lambda>chat_id c. 100)\<rparr>
    in monitor_loop py [failing, working] (start st)
         = (Some JSONDecodeError,
            \<lparr>state = st\<lparr>global_alerted := True\<rparr>, any_success = False,
             sent = [(''7'', Alert (Fetch_failed URLError))], written = []\<rparr>))"
  by (simp add: monitor_defs Let_def)


end
